theory Spec2Isabelle
  imports Complex_Main
begin

section \<open>Errors and the file system\<close>

text \<open>
  The exceptions the two modules can raise, as values.  \<open>Raised\<close> stands for an
  exception of a collaborator (feature extractor, classifier, configuration reader)
  whose class the repository does not fix.
\<close>

datatype error =
    AssertionError string
  | FileNotFoundError
  | IsADirectoryError
  | NotADirectoryError
  | ParserError
  | IOError
  | SchemaError
  | ConfigError
  | NotFoundError
  | Raised string

text \<open>
  A file system maps a path to what is stored there: a text file with its decoded
  content, or a directory with the names of its entries.
\<close>

datatype node = File string | Directory "string list"

type_synonym filesystem = "string \<Rightarrow> node option"

text \<open>\<^verbatim>\<open>os.path.isfile\<close> and \<^verbatim>\<open>os.path.isdir\<close>.\<close>

definition isfile :: "filesystem \<Rightarrow> string \<Rightarrow> bool" where
  "isfile fs p = (case fs p of Some (File _) \<Rightarrow> True | _ \<Rightarrow> False)"

definition isdir :: "filesystem \<Rightarrow> string \<Rightarrow> bool" where
  "isdir fs p = (case fs p of Some (Directory _) \<Rightarrow> True | _ \<Rightarrow> False)"

text \<open>
  \<^verbatim>\<open>open(path, "r")\<close> followed by reading the whole text.  A file is kept as its
  decoded text, so a file that is not valid in its encoding is outside the model.
\<close>

definition open_read :: "filesystem \<Rightarrow> string \<Rightarrow> error + string" where
  "open_read fs p =
     (case fs p of
        None \<Rightarrow> Inl FileNotFoundError
      | Some (Directory _) \<Rightarrow> Inl IsADirectoryError
      | Some (File text) \<Rightarrow> Inr text)"

text \<open>\<^verbatim>\<open>os.listdir\<close>.\<close>

definition listdir :: "filesystem \<Rightarrow> string \<Rightarrow> error + string list" where
  "listdir fs p =
     (case fs p of
        None \<Rightarrow> Inl FileNotFoundError
      | Some (File _) \<Rightarrow> Inl NotADirectoryError
      | Some (Directory entries) \<Rightarrow> Inr entries)"

text \<open>
  Iterating over a file opened in text mode yields its lines, each with its terminator;
  with the default universal newlines a carriage return, alone or before a line feed,
  ends a line and is read as a line feed.  \<open>cur\<close> holds the current line, reversed.
\<close>

fun lines_from :: "string \<Rightarrow> string \<Rightarrow> string list" where
  "lines_from cur [] = (if cur = [] then [] else [rev cur])"
| "lines_from cur (c # cs) =
     (if c = CHR 0x0A then rev (c # cur) # lines_from [] cs
      else if c = CHR 0x0D then
        (case cs of
           [] \<Rightarrow> [rev (CHR 0x0A # cur)]
         | d # ds \<Rightarrow>
             if d = CHR 0x0A then rev (CHR 0x0A # cur) # lines_from [] ds
             else rev (CHR 0x0A # cur) # lines_from [] cs)
      else lines_from (c # cur) cs)"

definition file_lines :: "string \<Rightarrow> string list" where
  "file_lines text = lines_from [] text"

section \<open>FileUtil\<close>

definition is_invalid_file :: "filesystem \<Rightarrow> string \<Rightarrow> bool" where
  "is_invalid_file fs input_filename = (\<not> isfile fs input_filename)"

definition is_valid_file :: "filesystem \<Rightarrow> string \<Rightarrow> bool" where
  "is_valid_file fs input_filename = (\<not> is_invalid_file fs input_filename)"

definition is_invalid_directory :: "filesystem \<Rightarrow> string \<Rightarrow> bool" where
  "is_invalid_directory fs directory_path = (\<not> isdir fs directory_path)"

definition is_valid_directory :: "filesystem \<Rightarrow> string \<Rightarrow> bool" where
  "is_valid_directory fs directory_path = (\<not> is_invalid_directory fs directory_path)"

text \<open>
  \<^verbatim>\<open>for i, l in enumerate(input_file): pass\<close>: the loop variable \<open>i\<close> keeps its
  initial value when the file has no line, and the index of the last line otherwise.
\<close>

fun enumerate_loop :: "nat \<Rightarrow> (nat \<times> string) list \<Rightarrow> nat" where
  "enumerate_loop i [] = i"
| "enumerate_loop i ((j, l) # rest) = enumerate_loop j rest"

definition enumerate :: "'a list \<Rightarrow> (nat \<times> 'a) list" where
  "enumerate xs = zip [0..<length xs] xs"

definition get_file_length :: "filesystem \<Rightarrow> string \<Rightarrow> error + nat" where
  "get_file_length fs i_filename =
     (case open_read fs i_filename of
        Inl e \<Rightarrow> Inl e
      | Inr text \<Rightarrow> Inr (enumerate_loop 0 (enumerate (file_lines text)) + 1))"

definition get_folder_names :: "filesystem \<Rightarrow> string \<Rightarrow> error + string list" where
  "get_folder_names fs directory_path =
     (if is_invalid_directory fs directory_path = False then listdir fs directory_path
      else Inl (AssertionError ''Invalid directory path''))"

text \<open>
  A pandas data frame: the row labels (\<open>index\<close>) and the named columns in their order,
  each with one value per row.  A series (one column taken out of a frame) keeps the row
  labels of the frame.
\<close>

record 'v dataframe =
  index :: "nat list"
  columns :: "(string \<times> 'v list) list"

record 'v series =
  s_index :: "nat list"
  s_values :: "'v list"

definition nrows :: "(string \<times> 'v list) list \<Rightarrow> nat" where
  "nrows cols = (case cols of [] \<Rightarrow> 0 | (name, vs) # _ \<Rightarrow> length vs)"

text \<open>
  \<^verbatim>\<open>pd.read_csv(input_filename)\<close> opens the file and parses its text; the parser of the
  library is the parameter \<open>parse_csv\<close>.  The frame read gets the default row labels
  \<open>0, 1, ...\<close>.
\<close>

definition csv2dataframe ::
  "(string \<Rightarrow> error + (string \<times> 'v list) list) \<Rightarrow> filesystem \<Rightarrow> string \<Rightarrow> error + 'v dataframe"
where
  "csv2dataframe parse_csv fs input_filename =
     (case open_read fs input_filename of
        Inl e \<Rightarrow> Inl e
      | Inr text \<Rightarrow>
          (case parse_csv text of
             Inl e \<Rightarrow> Inl e
           | Inr cols \<Rightarrow> Inr \<lparr>index = [0..<nrows cols], columns = cols\<rparr>))"

text \<open>
  \<^verbatim>\<open>os.path.split\<close> (POSIX): the part after the last slash, and the part before it
  without its trailing slashes, unless it consists of slashes only.
\<close>

definition os_path_split :: "string \<Rightarrow> string \<times> string" where
  "os_path_split p =
     (let tail = rev (takeWhile (\<lambda>c. c \<noteq> CHR ''/'') (rev p));
          head = rev (dropWhile (\<lambda>c. c \<noteq> CHR ''/'') (rev p))
      in (if head \<noteq> [] \<and> \<not> (\<forall>c \<in> set head. c = CHR ''/'')
          then rev (dropWhile (\<lambda>c. c = CHR ''/'') (rev head)) else head,
          tail))"

text \<open>
  Opening a path for writing and writing a text: the parent must be a directory and the
  path must not be one; an existing file is overwritten, a new one is entered in its
  directory.
\<close>

definition write_text :: "filesystem \<Rightarrow> string \<Rightarrow> string \<Rightarrow> (error + unit) \<times> filesystem" where
  "write_text fs path text =
     (case os_path_split path of
        (parent, name) \<Rightarrow>
          (case fs parent of
             None \<Rightarrow> (Inl FileNotFoundError, fs)
           | Some (File _) \<Rightarrow> (Inl NotADirectoryError, fs)
           | Some (Directory entries) \<Rightarrow>
               (case fs path of
                  Some (Directory _) \<Rightarrow> (Inl IsADirectoryError, fs)
                | _ \<Rightarrow>
                    (Inr (),
                     fs(parent \<mapsto> Directory (if name \<in> set entries then entries
                                                 else entries @ [name]),
                        path \<mapsto> File text)))))"

text \<open>
  \<open>FileUtil.dataframe2csv\<close>: \<^verbatim>\<open>input_dataframe.to_csv(output_filename, index=False)\<close>.
  The serialiser of the library is the parameter \<open>write_csv\<close>; with \<^verbatim>\<open>index=False\<close>
  it is given the columns and not the row labels.
\<close>

definition dataframe2csv ::
  "((string \<times> 'v list) list \<Rightarrow> string) \<Rightarrow> filesystem \<Rightarrow> 'v dataframe \<Rightarrow> string
     \<Rightarrow> (error + unit) \<times> filesystem"
where
  "dataframe2csv write_csv fs input_dataframe output_filename =
     write_text fs output_filename (write_csv (columns input_dataframe))"

section \<open>The pipeline: MusicGenreClassification and main\<close>

text \<open>
  The run threads a state through every call: the world the collaborators act on (files,
  clock, objects), the lines \<open>main\<close> has printed, and the calls made to collaborators
  so far, each with whether it returned (\<open>True\<close>) or raised (\<open>False\<close>).  A raised
  exception is the result \<open>Inl\<close>; \<open>and_then\<close> is Python's sequencing, which skips
  what follows a raise, there being no \<^verbatim>\<open>try\<close> in the module.
\<close>

datatype step =
    NewExtractor | NewClassifier | ReadConfig
  | ExtractDataset | CopyFrame | Normalize | Factorize
  | GetTime | MakeDataset | ReadDataset
  | Training | SaveModel | LoadModel | Test

record 'w run_state =
  world :: 'w
  stdout :: "string list"
  trace :: "(step \<times> bool) list"

type_synonym ('w, 'a) prog = "'w run_state \<Rightarrow> (error + 'a) \<times> 'w run_state"

definition start :: "'w \<Rightarrow> 'w run_state" where
  "start w = \<lparr>world = w, stdout = [], trace = []\<rparr>"

definition and_then :: "('w, 'a) prog \<Rightarrow> ('a \<Rightarrow> ('w, 'b) prog) \<Rightarrow> ('w, 'b) prog" where
  "and_then m f s = (case m s of (Inl e, s') \<Rightarrow> (Inl e, s') | (Inr x, s') \<Rightarrow> f x s')"

definition call :: "step \<Rightarrow> ('w \<Rightarrow> (error + 'a) \<times> 'w) \<Rightarrow> ('w, 'a) prog" where
  "call st f s =
     (case f (world s) of
        (r, w') \<Rightarrow> (r, s\<lparr>world := w', trace := trace s @ [(st, \<not> isl r)]\<rparr>))"

definition print :: "string \<Rightarrow> ('w, unit) prog" where
  "print line s = (Inr (), s\<lparr>stdout := stdout s @ [line]\<rparr>)"

text \<open>\<^verbatim>\<open>os.path.join\<close> of two components (POSIX).\<close>

definition path_join :: "string \<Rightarrow> string \<Rightarrow> string" where
  "path_join a b =
     (if b \<noteq> [] \<and> hd b = CHR ''/'' then b
      else if a = [] \<or> last a = CHR ''/'' then a @ b
      else a @ ''/'' @ b)"

text \<open>What \<open>ConfigReader\<close> provides to this module.\<close>

record config =
  label_name :: string
  test_rate :: rat
  shuffle :: bool

text \<open>
  The modules this one imports and that are not part of it, as parameters: the feature
  extractor, the classifier, the configuration reader, \<open>DataProcess\<close>, the pandas copy of
  a frame, \<open>FileUtil.get_time\<close> and the formatting of the accuracy.  \<open>'df\<close> is a data
  frame (or a reference to one), \<open>'x\<close> and \<open>'y\<close> are the data and label structures,
  \<open>'m\<close> a model, \<open>'acc\<close> the accuracy.
\<close>

record ('w, 'df, 'x, 'y, 'm, 'acc) collaborators =
  new_extractor :: "string \<Rightarrow> 'w \<Rightarrow> (error + unit) \<times> 'w"
  new_classifier :: "string \<Rightarrow> 'w \<Rightarrow> (error + unit) \<times> 'w"
  config_reader :: "string \<Rightarrow> 'w \<Rightarrow> (error + config) \<times> 'w"
  extract_dataset :: "string \<Rightarrow> string \<Rightarrow> 'w \<Rightarrow> (error + 'df) \<times> 'w"
  df_copy :: "'df \<Rightarrow> 'w \<Rightarrow> (error + 'df) \<times> 'w"
  normalize_dataframe :: "'df \<Rightarrow> string \<Rightarrow> 'w \<Rightarrow> (error + 'df) \<times> 'w"
  factorize_lebel :: "'df \<Rightarrow> string \<Rightarrow> 'w \<Rightarrow> (error + 'df) \<times> 'w"
  get_time :: "'w \<Rightarrow> (error + string) \<times> 'w"
  dp_make_dataset ::
    "'df \<Rightarrow> string \<Rightarrow> rat \<Rightarrow> bool \<Rightarrow> string \<Rightarrow> 'w \<Rightarrow> (error + 'x \<times> 'x \<times> 'y \<times> 'y) \<times> 'w"
  dp_read_dataset :: "string \<Rightarrow> string \<Rightarrow> 'w \<Rightarrow> (error + 'x \<times> 'x \<times> 'y \<times> 'y) \<times> 'w"
  clf_training :: "'x \<Rightarrow> 'y \<Rightarrow> 'w \<Rightarrow> (error + 'm) \<times> 'w"
  clf_save_model :: "'m \<Rightarrow> string \<Rightarrow> 'w \<Rightarrow> (error + unit) \<times> 'w"
  clf_load_model :: "string \<Rightarrow> 'w \<Rightarrow> (error + 'm) \<times> 'w"
  clf_test :: "'m \<Rightarrow> 'x \<Rightarrow> 'y \<Rightarrow> 'w \<Rightarrow> (error + 'acc) \<times> 'w"
  format_accuracy :: "'acc \<Rightarrow> string"

text \<open>The fields of a \<open>MusicGenreClassification\<close> object that are plain data.\<close>

record mgc =
  dataset_path :: string
  cfg :: config
  setting_file :: string

definition new_mgc ::
  "('w, 'df, 'x, 'y, 'm, 'acc) collaborators \<Rightarrow> string \<Rightarrow> string \<Rightarrow> ('w, mgc) prog"
where
  "new_mgc env dataset_path' setting_file' =
     and_then (call NewExtractor (new_extractor env setting_file')) (\<lambda>_.
     and_then (call NewClassifier (new_classifier env setting_file')) (\<lambda>_.
     and_then (call ReadConfig (config_reader env setting_file')) (\<lambda>c.
       Pair (Inr \<lparr>dataset_path = dataset_path', cfg = c, setting_file = setting_file'\<rparr>))))"

definition feature_extraction ::
  "('w, 'df, 'x, 'y, 'm, 'acc) collaborators \<Rightarrow> mgc \<Rightarrow> ('w, 'df) prog"
where
  "feature_extraction env self =
     call ExtractDataset (extract_dataset env (dataset_path self) ''mean'')"

definition make_dataset ::
  "('w, 'df, 'x, 'y, 'm, 'acc) collaborators \<Rightarrow> mgc \<Rightarrow> 'df \<Rightarrow> string
     \<Rightarrow> ('w, 'x \<times> 'x \<times> 'y \<times> 'y) prog"
where
  "make_dataset env self dataframe output_directory =
     and_then (call GetTime (get_time env)) (\<lambda>now.
       call MakeDataset
         (dp_make_dataset env dataframe (label_name (cfg self)) (test_rate (cfg self))
            (shuffle (cfg self)) (path_join output_directory now)))"

definition read_dataset ::
  "('w, 'df, 'x, 'y, 'm, 'acc) collaborators \<Rightarrow> mgc \<Rightarrow> string
     \<Rightarrow> ('w, 'x \<times> 'x \<times> 'y \<times> 'y) prog"
where
  "read_dataset env self input_data_directory_with_date =
     call ReadDataset
       (dp_read_dataset env input_data_directory_with_date (label_name (cfg self)))"

definition data_process ::
  "('w, 'df, 'x, 'y, 'm, 'acc) collaborators \<Rightarrow> mgc \<Rightarrow> 'df \<Rightarrow> ('w, 'df) prog"
where
  "data_process env self dataframe =
     and_then (call CopyFrame (df_copy env dataframe)) (\<lambda>copied.
     and_then (call Normalize (normalize_dataframe env copied (label_name (cfg self))))
       (\<lambda>normalized.
       call Factorize (factorize_lebel env normalized (label_name (cfg self)))))"

definition training ::
  "('w, 'df, 'x, 'y, 'm, 'acc) collaborators \<Rightarrow> mgc \<Rightarrow> 'x \<Rightarrow> 'y \<Rightarrow> string \<Rightarrow> ('w, 'm) prog"
where
  "training env self train_data train_label output_directory =
     and_then (call Training (clf_training env train_data train_label)) (\<lambda>model.
     and_then (call GetTime (get_time env)) (\<lambda>now.
     and_then (call SaveModel (clf_save_model env model (path_join output_directory now)))
       (\<lambda>_. Pair (Inr model))))"

definition test ::
  "('w, 'df, 'x, 'y, 'm, 'acc) collaborators \<Rightarrow> mgc \<Rightarrow> 'm \<Rightarrow> 'x \<Rightarrow> 'y \<Rightarrow> ('w, 'acc) prog"
where
  "test env self model test_data test_label =
     call Test (clf_test env model test_data test_label)"

text \<open>
  \<open>main\<close> fixes its two flags in local variables; \<open>main_with\<close> is its body with the
  flags as arguments, and \<open>main\<close> the body at the values the source assigns.
\<close>

definition main_with ::
  "('w, 'df, 'x, 'y, 'm, 'acc) collaborators \<Rightarrow> bool \<Rightarrow> bool \<Rightarrow> ('w, unit) prog"
where
  "main_with env feature_extraction' training' =
     and_then (new_mgc env ''../../data'' ''../../config/master_config.ini'') (\<lambda>MGC.
     and_then
       (if feature_extraction' = True then
          and_then (print ''Start feature extraction'') (\<lambda>_.
          and_then (feature_extraction env MGC) (\<lambda>extracted_feature_dataframe.
          and_then (data_process env MGC extracted_feature_dataframe) (\<lambda>clean_dataframe.
            make_dataset env MGC clean_dataframe ''../../feature'')))
        else read_dataset env MGC ''../../feature/2019-01-23_23:19:56.871484'')
       (\<lambda>(train_data, test_data, train_label, test_label).
     and_then
       (if training' = True then training env MGC train_data train_label ''../../model''
        else call LoadModel
               (clf_load_model env ''../../model/2019-01-23_23:19:59.720996/mlp.h5''))
       (\<lambda>model.
     and_then (test env MGC model test_data test_label) (\<lambda>accuracy.
     and_then (print ''Start prediction'') (\<lambda>_.
       print (''Final accuracy is '' @ format_accuracy env accuracy))))))"

definition main :: "('w, 'df, 'x, 'y, 'm, 'acc) collaborators \<Rightarrow> ('w, unit) prog" where
  "main env = main_with env False True"

section \<open>Objects and copies\<close>

text \<open>
  Data frames are objects: a frame variable holds a reference (an index into the heap),
  and two variables may refer to the same frame.  Whatever else the collaborators act on
  is \<open>outside\<close>.  \<^verbatim>\<open>dataframe.copy()\<close> of pandas (deep by default) allocates a new frame
  with the content of the old one.
\<close>

record ('t, 'o) memory =
  heap :: "'t list"
  outside :: 'o

definition pandas_copy :: "nat \<Rightarrow> ('t, 'o) memory \<Rightarrow> (error + nat) \<times> ('t, 'o) memory" where
  "pandas_copy a w =
     (if a < length (heap w) then (Inr (length (heap w)), w\<lparr>heap := heap w @ [heap w ! a]\<rparr>)
      else (Inl (Raised ''no such object''), w))"

text \<open>
  What is assumed of \<open>DataProcess.normalize_dataframe\<close> and
  \<open>DataProcess.factorize_lebel\<close>, which receive one frame and a column name: they may
  change the frame they are given and allocate new ones, they leave every other existing
  frame as it was, and they return the frame they were given or a new one.
\<close>

definition acts_on_argument ::
  "(nat \<Rightarrow> string \<Rightarrow> ('t, 'o) memory \<Rightarrow> (error + nat) \<times> ('t, 'o) memory) \<Rightarrow> bool" where
  "acts_on_argument f \<longleftrightarrow>
     (\<forall>p l w r w'. f p l w = (r, w') \<longrightarrow>
        length (heap w) \<le> length (heap w')
        \<and> (\<forall>a<length (heap w). a \<noteq> p \<longrightarrow> heap w' ! a = heap w ! a)
        \<and> (\<forall>q. r = Inr q \<longrightarrow> q = p \<or> length (heap w) \<le> q))"

section \<open>The order of a run, and collaborators to run it with\<close>

text \<open>
  The calls of a run in the order of the specification's pipeline: construction, one
  feature source (extraction with processing, split and persistence, or the reload of a
  snapshot), one model source (training and saving, or loading), then the test.
\<close>

definition expected_steps :: "bool \<Rightarrow> bool \<Rightarrow> step list" where
  "expected_steps fe tr =
     [NewExtractor, NewClassifier, ReadConfig]
     @ (if fe then [ExtractDataset, CopyFrame, Normalize, Factorize, GetTime, MakeDataset]
        else [ReadDataset])
     @ (if tr then [Training, GetTime, SaveModel] else [LoadModel])
     @ [Test]"

text \<open>
  Three properties of a program, used to follow a run call by call: the calls it adds
  to the trace are those of \<open>L\<close> in order, up to and including the first that raises;
  it prints lines of \<open>A\<close> only; when it raises it has printed lines of \<open>A\<close> only.
\<close>

definition ok :: "step list \<Rightarrow> (step \<times> bool) list" where
  "ok L = map (\<lambda>st. (st, True)) L"

definition obeys :: "('w, 'a) prog \<Rightarrow> step list \<Rightarrow> bool" where
  "obeys m L \<longleftrightarrow>
     (\<forall>s r s'. m s = (r, s') \<longrightarrow>
        (if isl r then \<exists>k<length L. trace s' = trace s @ ok (take k L) @ [(L ! k, False)]
         else trace s' = trace s @ ok L))"

definition prints_only :: "('w, 'a) prog \<Rightarrow> string set \<Rightarrow> bool" where
  "prints_only m A \<longleftrightarrow>
     (\<forall>s r s'. m s = (r, s') \<longrightarrow> (\<exists>ls. stdout s' = stdout s @ ls \<and> set ls \<subseteq> A))"

definition quiet_failure :: "('w, 'a) prog \<Rightarrow> string set \<Rightarrow> bool" where
  "quiet_failure m A \<longleftrightarrow>
     (\<forall>s r s'. m s = (r, s') \<longrightarrow>
        (\<exists>ls. stdout s' = stdout s @ ls \<and> (isl r \<longrightarrow> set ls \<subseteq> A)))"

text \<open>
  Collaborators for running the pipeline on a concrete input.  Frames are lists of
  numbers on the heap; normalisation rewrites the frame it is given in place, the label
  encoding returns a new frame, and every other call returns at once.
\<close>

definition stub_collaborators ::
  "((int list, unit) memory, nat, nat, nat, nat, nat) collaborators" where
  "stub_collaborators =
     \<lparr>new_extractor = (\<lambda>_ w. (Inr (), w)),
      new_classifier = (\<lambda>_ w. (Inr (), w)),
      config_reader =
        (\<lambda>_ w. (Inr \<lparr>label_name = ''category'', test_rate = 1 / 5, shuffle = True\<rparr>, w)),
      extract_dataset = (\<lambda>_ _ w. (Inr 0, w)),
      df_copy = pandas_copy,
      normalize_dataframe =
        (\<lambda>p _ w. (Inr p, w\<lparr>heap := (heap w)[p := map (\<lambda>v. v - 1) (heap w ! p)]\<rparr>)),
      factorize_lebel =
        (\<lambda>p _ w. (Inr (length (heap w)), w\<lparr>heap := heap w @ [map (\<lambda>v. 2 * v) (heap w ! p)]\<rparr>)),
      get_time = (\<lambda>w. (Inr ''2019-01-23_23:19:56.871484'', w)),
      dp_make_dataset = (\<lambda>_ _ _ _ _ w. (Inr (0, 0, 0, 0), w)),
      dp_read_dataset = (\<lambda>_ _ w. (Inr (0, 0, 0, 0), w)),
      clf_training = (\<lambda>_ _ w. (Inr 0, w)),
      clf_save_model = (\<lambda>_ _ w. (Inr (), w)),
      clf_load_model = (\<lambda>_ w. (Inr 0, w)),
      clf_test = (\<lambda>_ _ _ w. (Inr 1, w)),
      format_accuracy = (\<lambda>a. if a = 0 then ''0.0'' else ''1.0'')\<rparr>"

section \<open>The data processor\<close>

text \<open>Python's \<^verbatim>\<open>round\<close>: the nearest integer, and the even one at a tie.\<close>

definition py_round :: "rat \<Rightarrow> int" where
  "py_round x =
     (let f = \<lfloor>x\<rfloor>; d = x - of_int f
      in if d < 1 / 2 then f else if 1 / 2 < d then f + 1 else if even f then f else f + 1)"

text \<open>
  Modelled from the spec: \<open>DataProcess\<close> is not among the sources.  The rows of a table
  at the positions \<open>ps\<close>, in that order, each with its row label.
\<close>

definition take_rows :: "nat list \<Rightarrow> 'v dataframe \<Rightarrow> 'v dataframe" where
  "take_rows ps df =
     \<lparr>index = map (\<lambda>i. index df ! i) ps,
      columns = map (\<lambda>(name, vs). (name, map (\<lambda>i. vs ! i) ps)) (columns df)\<rparr>"

text \<open>
  Modelled from the spec: \<open>DataProcess\<close> is not among the sources.  Taking the label
  column out of a table gives the table without it and the label vector, aligned row by
  row; a table without the column is a \<open>SchemaError\<close>.
\<close>

definition separate_label :: "'v dataframe \<Rightarrow> string \<Rightarrow> error + 'v dataframe \<times> 'v series" where
  "separate_label df label_column =
     (case map_of (columns df) label_column of
        None \<Rightarrow> Inl SchemaError
      | Some vs \<Rightarrow>
          Inr (\<lparr>index = index df,
                columns = filter (\<lambda>(name, _). name \<noteq> label_column) (columns df)\<rparr>,
               \<lparr>s_index = index df, s_values = vs\<rparr>))"

text \<open>
  Modelled from the spec: the split of \<open>DataProcess\<close>, which is not among the sources.
  A rate outside \<open>(0, 1)\<close> is a \<open>ConfigError\<close>.  With the shuffle on, the rows are
  taken in the order \<open>perm\<close> drawn by the generator of the process, else in their own
  order.  The first \<open>1 - rate\<close> fraction of the rows, integer-rounded by \<open>rnd\<close>,
  is the train partition and the rest the test partition; the label column is then taken
  out of each.
\<close>

definition split_table ::
  "(rat \<Rightarrow> int) \<Rightarrow> nat list \<Rightarrow> 'v dataframe \<Rightarrow> string \<Rightarrow> rat \<Rightarrow> bool
     \<Rightarrow> error + 'v dataframe \<times> 'v dataframe \<times> 'v series \<times> 'v series"
where
  "split_table rnd perm table label_column rate shuf =
     (if \<not> (0 < rate \<and> rate < 1) then Inl ConfigError
      else
        let n = length (index table);
            order = (if shuf then perm else [0..<n]);
            n_train = nat (rnd (of_nat n * (1 - rate)));
            train_rows = take_rows (take n_train order) table;
            test_rows = take_rows (drop n_train order) table
        in case separate_label train_rows label_column of
             Inl e \<Rightarrow> Inl e
           | Inr (train_data, train_label) \<Rightarrow>
               (case separate_label test_rows label_column of
                  Inl e \<Rightarrow> Inl e
                | Inr (test_data, test_label) \<Rightarrow>
                    Inr (train_data, test_data, train_label, test_label)))"

text \<open>A processed table of five samples, to run the data processor on.\<close>

definition genre_table :: "int dataframe" where
  "genre_table =
     \<lparr>index = [0, 1, 2, 3, 4],
      columns = [(''zcr'', [10, 11, 12, 13, 14]), (''category'', [0, 1, 0, 1, 2]),
                 (''rms'', [20, 21, 22, 23, 24])]\<rparr>"

text \<open>
  Modelled from the spec: \<open>DataProcess\<close> is not among the sources.  A (data, label) pair
  is recombined into one table by reinserting the label column.
\<close>

definition recombine :: "'v dataframe \<Rightarrow> 'v series \<Rightarrow> string \<Rightarrow> 'v dataframe" where
  "recombine data label label_column =
     \<lparr>index = index data, columns = columns data @ [(label_column, s_values label)]\<rparr>"

text \<open>
  Modelled from the spec: the persistence step of \<open>DataProcess.make_dataset\<close>, which is
  not among the sources.  The directory is created if absent; a directory that is not
  empty (or a file in its place) is an \<open>IOError\<close> and nothing is written; else the two
  recombined tables are written as \<^verbatim>\<open>train.csv\<close> and \<^verbatim>\<open>test.csv\<close>, and the directory is
  returned.  The file system after the call is returned in every case.
\<close>

definition persist_snapshot ::
  "((string \<times> 'v list) list \<Rightarrow> string) \<Rightarrow> filesystem
     \<Rightarrow> 'v dataframe \<Rightarrow> 'v series \<Rightarrow> 'v dataframe \<Rightarrow> 'v series \<Rightarrow> string \<Rightarrow> string
     \<Rightarrow> (error + string) \<times> filesystem"
where
  "persist_snapshot write_csv fs train_data train_label test_data test_label label_column
       directory =
     (case fs directory of
        Some (File _) \<Rightarrow> (Inl IOError, fs)
      | Some (Directory (e # es)) \<Rightarrow> (Inl IOError, fs)
      | existing \<Rightarrow>
          (let fs0 = (if existing = None then fs(directory \<mapsto> Directory []) else fs)
           in case dataframe2csv write_csv fs0 (recombine train_data train_label label_column)
                     (path_join directory ''train.csv'') of
                (Inl e, fs1) \<Rightarrow> (Inl e, fs1)
              | (Inr _, fs1) \<Rightarrow>
                  (case dataframe2csv write_csv fs1
                          (recombine test_data test_label label_column)
                          (path_join directory ''test.csv'') of
                     (Inl e, fs2) \<Rightarrow> (Inl e, fs2)
                   | (Inr _, fs2) \<Rightarrow> (Inr directory, fs2))))"




text \<open>
  Modelled from the spec: the tabular artifact format, delimited text with a header row
  and one row per sample, for tables of integers.  It stands for the serialiser and the
  parser of the library where a concrete pair is needed.
\<close>

fun show_nat :: "nat \<Rightarrow> string" where
  "show_nat n =
     (if n < 10 then [char_of (48 + n)] else show_nat (n div 10) @ [char_of (48 + n mod 10)])"

declare show_nat.simps [simp del]

definition show_int :: "int \<Rightarrow> string" where
  "show_int i = (if i < 0 then CHR ''-'' # show_nat (nat (- i)) else show_nat (nat i))"




fun join_with :: "char \<Rightarrow> string list \<Rightarrow> string" where
  "join_with sep [] = []"
| "join_with sep [w] = w"
| "join_with sep (w # ws) = w @ sep # join_with sep ws"

definition int_to_csv :: "(string \<times> int list) list \<Rightarrow> string" where
  "int_to_csv cols =
     concat (map (\<lambda>l. l @ [CHR 0x0A])
       (join_with CHR '','' (map fst cols)
        # map (\<lambda>i. join_with CHR '','' (map (\<lambda>(name, vs). show_int (vs ! i)) cols))
            [0..<nrows cols]))"





text \<open>A snapshot directory named as \<open>make_dataset\<close> names it.\<close>

definition snapshot_dir :: string where
  "snapshot_dir = path_join ''../../feature'' ''2019-01-23_23:19:56.871484''"

section \<open>Snapshot naming\<close>

text \<open>Python's \<^verbatim>\<open><\<close> on strings: lexical order by character code.\<close>

fun str_less :: "string \<Rightarrow> string \<Rightarrow> bool" where
  "str_less [] [] = False"
| "str_less [] (y # ys) = True"
| "str_less (x # xs) [] = False"
| "str_less (x # xs) (y # ys) = ((of_char x :: nat) < of_char y \<or> (x = y \<and> str_less xs ys))"

text \<open>A reading of the wall clock, to the microsecond.\<close>

record datetime =
  year :: nat
  month :: nat
  day :: nat
  hour :: nat
  minute :: nat
  second :: nat
  microsecond :: nat

definition valid_datetime :: "datetime \<Rightarrow> bool" where
  "valid_datetime t \<longleftrightarrow>
     1 \<le> year t \<and> year t \<le> 9999 \<and> 1 \<le> month t \<and> month t \<le> 12
     \<and> 1 \<le> day t \<and> day t \<le> 31 \<and> hour t \<le> 23 \<and> minute t \<le> 59 \<and> second t \<le> 59
     \<and> microsecond t \<le> 999999"

text \<open>Chronological order of two readings.\<close>

definition earlier :: "datetime \<Rightarrow> datetime \<Rightarrow> bool" where
  "earlier a b \<longleftrightarrow>
     year a < year b \<or> (year a = year b \<and>
     (month a < month b \<or> (month a = month b \<and>
     (day a < day b \<or> (day a = day b \<and>
     (hour a < hour b \<or> (hour a = hour b \<and>
     (minute a < minute b \<or> (minute a = minute b \<and>
     (second a < second b \<or> (second a = second b \<and>
      microsecond a < microsecond b)))))))))))"

text \<open>The last \<open>w\<close> decimal digits of \<open>n\<close>: \<open>n\<close> zero-padded to width \<open>w\<close> when \<open>n < 10 ^ w\<close>.\<close>

fun zero_padded :: "nat \<Rightarrow> nat \<Rightarrow> string" where
  "zero_padded 0 n = []"
| "zero_padded (Suc w) n = zero_padded w (n div 10) @ [char_of (48 + n mod 10)]"

text \<open>
  Modelled from the spec: \<open>FileUtil.get_time\<close> is called by \<open>make_dataset\<close> and
  \<open>training\<close> but is not defined in the \<open>FileUtil\<close> among the sources.  The identifier
  is derived from the clock reading at microsecond resolution, in fixed-width fields, most
  significant first; the directory names in \<open>main\<close> have this form.
\<close>

definition format_time :: "datetime \<Rightarrow> string" where
  "format_time t =
     zero_padded 4 (year t) @ CHR ''-'' # zero_padded 2 (month t) @ CHR ''-'' #
     zero_padded 2 (day t) @ CHR ''_'' # zero_padded 2 (hour t) @ CHR '':'' #
     zero_padded 2 (minute t) @ CHR '':'' # zero_padded 2 (second t) @ CHR ''.'' #
     zero_padded 6 (microsecond t)"

text \<open>
  Modelled from the spec: the collision policy.  The generator remembers the reading of
  the last identifier of the run; a request within the same clock tick gets a counter
  appended, which grows with every further request in that tick.
\<close>

record id_state =
  last_tick :: "datetime option"
  collisions :: nat

definition new_snapshot_id :: "datetime \<Rightarrow> id_state \<Rightarrow> string \<times> id_state" where
  "new_snapshot_id now st =
     (if last_tick st = Some now
      then (format_time now @ CHR ''_'' # zero_padded 6 (collisions st + 1),
            st\<lparr>collisions := collisions st + 1\<rparr>)
      else (format_time now, \<lparr>last_tick = Some now, collisions = 0\<rparr>))"

text \<open>The identifiers of a run that requests one at each of the readings, in order.\<close>

fun run_ids :: "datetime list \<Rightarrow> id_state \<Rightarrow> string list" where
  "run_ids [] st = []"
| "run_ids (now # nows) st =
     (case new_snapshot_id now st of (name, st') \<Rightarrow> name # run_ids nows st')"


definition fresh_run :: id_state where
  "fresh_run = \<lparr>last_tick = None, collisions = 0\<rparr>"

text \<open>The identifier issued at reading \<open>t\<close> after \<open>c\<close> collisions in that tick.\<close>

definition issued :: "datetime \<Rightarrow> nat \<Rightarrow> string" where
  "issued t c = (if c = 0 then format_time t else format_time t @ CHR ''_'' # zero_padded 6 c)"

text \<open>The two readings behind the directory names in \<open>main\<close>.\<close>

definition feature_tick :: datetime where
  "feature_tick = \<lparr>year = 2019, month = 1, day = 23, hour = 23, minute = 19, second = 56,
     microsecond = 871484\<rparr>"

definition model_tick :: datetime where
  "model_tick = \<lparr>year = 2019, month = 1, day = 23, hour = 23, minute = 19, second = 59,
     microsecond = 720996\<rparr>"

section \<open>Properties of FileUtil\<close>

lemma lines_from_empty_iff: "lines_from cur s = [] \<longleftrightarrow> cur = [] \<and> s = []"
  by (induction cur s rule: lines_from.induct) (auto split: list.splits)

lemma file_lines_empty_iff: "file_lines text = [] \<longleftrightarrow> text = []"
  by (simp add: file_lines_def lines_from_empty_iff)

lemma enumerate_loop_zip:
  "length is = length ls \<Longrightarrow> enumerate_loop i (zip is ls) = (if is = [] then i else last is)"
  by (induction "is" ls arbitrary: i rule: list_induct2) auto

lemma enumerate_loop_enumerate:
  "enumerate_loop 0 (enumerate ls) = length ls - 1"
  by (cases "ls = []") (simp_all add: enumerate_def enumerate_loop_zip last_upt)

text \<open>
  C9.  For every path, \<open>is_valid_file\<close> is the negation of \<open>is_invalid_file\<close> and
  \<open>is_valid_directory\<close> is the negation of \<open>is_invalid_directory\<close>; the valid
  predicates are \<^verbatim>\<open>os.path.isfile\<close> and \<^verbatim>\<open>os.path.isdir\<close> themselves.
\<close>

theorem valid_is_complement_of_invalid:
  "is_valid_file fs p = (\<not> is_invalid_file fs p)
   \<and> is_valid_directory fs p = (\<not> is_invalid_directory fs p)
   \<and> is_valid_file fs p = isfile fs p
   \<and> is_valid_directory fs p = isdir fs p"
  by (simp add: is_valid_file_def is_invalid_file_def is_valid_directory_def
      is_invalid_directory_def)

text \<open>
  C10.  \<open>get_file_length\<close> never returns 0: on a readable file without any line it
  returns 1, and on a readable file of \<open>n \<ge> 1\<close> lines it returns \<open>n\<close>.
\<close>

theorem get_file_length_never_zero:
  "get_file_length fs p \<noteq> Inr 0
   \<and> (fs p = Some (File s) \<and> file_lines s = [] \<longrightarrow> get_file_length fs p = Inr 1)
   \<and> (fs p = Some (File s) \<and> 1 \<le> length (file_lines s) \<longrightarrow>
        get_file_length fs p = Inr (length (file_lines s)))"
proof (intro conjI impI)
  show "get_file_length fs p \<noteq> Inr 0"
    by (simp add: get_file_length_def split: sum.splits)
next
  assume "fs p = Some (File s) \<and> file_lines s = []"
  then show "get_file_length fs p = Inr 1"
    by (simp add: get_file_length_def open_read_def enumerate_def)
next
  assume "fs p = Some (File s) \<and> 1 \<le> length (file_lines s)"
  then show "get_file_length fs p = Inr (length (file_lines s))"
    by (auto simp: get_file_length_def open_read_def enumerate_loop_enumerate)
qed

theorem get_file_length_never_zero_witness:
  "get_file_length (\<lambda>p. Some (File [])) ''empty.txt'' = Inr 1
   \<and> get_file_length (\<lambda>p. Some (File [CHR ''a'', CHR 0x0A, CHR ''b'', CHR 0x0D, CHR 0x0A, CHR ''c'']))
        ''three.txt'' = Inr 3"
  using get_file_length_never_zero [of "\<lambda>p. Some (File [])" "''empty.txt''" "[]"]
    get_file_length_never_zero
      [of "\<lambda>p. Some (File [CHR ''a'', CHR 0x0A, CHR ''b'', CHR 0x0D, CHR 0x0A, CHR ''c''])"
          "''three.txt''" "[CHR ''a'', CHR 0x0A, CHR ''b'', CHR 0x0D, CHR 0x0A, CHR ''c'']"]
  by (simp add: file_lines_def)

text \<open>
  C8.  Listing the class folders of a path that is not a directory fails with the
  assertion's error, and reading a feature table from a path that is not a file fails:
  neither returns a result for a path that does not exist.
\<close>

theorem tabular_io_fails_on_missing_path:
  "(\<not> isdir fs p \<longrightarrow> get_folder_names fs p = Inl (AssertionError ''Invalid directory path''))
   \<and> (\<not> isfile fs p \<longrightarrow> (\<exists>e. csv2dataframe parse_csv fs p = Inl e))"
  by (auto simp: get_folder_names_def is_invalid_directory_def csv2dataframe_def open_read_def
      isfile_def split: option.splits node.splits)

theorem tabular_io_fails_on_missing_path_witness:
  "get_folder_names Map.empty ''../../data'' = Inl (AssertionError ''Invalid directory path'')
   \<and> (\<exists>e. csv2dataframe (\<lambda>s. Inr []) Map.empty ''../../data''
          = (Inl e :: error + nat dataframe))"
  using tabular_io_fails_on_missing_path
    [where fs = Map.empty and p = "''../../data''"
       and parse_csv = "\<lambda>s. Inr ([] :: (string \<times> nat list) list)"]
  by (simp add: isdir_def isfile_def)


section \<open>Properties of the pipeline\<close>

lemma obeys_raised:
  "obeys m L \<Longrightarrow> m s = (r, s') \<Longrightarrow> isl r \<Longrightarrow>
   \<exists>k<length L. trace s' = trace s @ ok (take k L) @ [(L ! k, False)]"
  unfolding obeys_def by (erule allE [of _ s], erule allE [of _ r], erule allE [of _ s']) simp

lemma obeys_returned:
  "obeys m L \<Longrightarrow> m s = (r, s') \<Longrightarrow> \<not> isl r \<Longrightarrow> trace s' = trace s @ ok L"
  unfolding obeys_def by (erule allE [of _ s], erule allE [of _ r], erule allE [of _ s']) simp

lemma obeys_call: "obeys (call st f) [st]"
  by (auto simp: obeys_def call_def ok_def split: prod.splits)

lemma obeys_print: "obeys (print l) []"
  by (simp add: obeys_def print_def ok_def)

lemma obeys_return: "obeys (Pair (Inr x)) []"
  by (simp add: obeys_def ok_def)

lemma obeys_and_then:
  assumes m: "obeys m L1" and f: "\<And>x. obeys (f x) L2"
  shows "obeys (and_then m f) (L1 @ L2)"
  unfolding obeys_def
proof (intro allI impI)
  fix s r s'
  assume run: "and_then m f s = (r, s')"
  obtain r1 s1 where m1: "m s = (r1, s1)" by (cases "m s")
  show "if isl r then \<exists>k<length (L1 @ L2). trace s' = trace s @ ok (take k (L1 @ L2)) @ [((L1 @ L2) ! k, False)]
        else trace s' = trace s @ ok (L1 @ L2)"
  proof (cases r1)
    case (Inl e)
    with run m1 have eq: "r = Inl e" "s' = s1" by (simp_all add: and_then_def)
    from obeys_raised [OF m m1] Inl obtain k where k: "k < length L1"
      "trace s1 = trace s @ ok (take k L1) @ [(L1 ! k, False)]"
      by auto
    then show ?thesis using eq
      by (auto simp: nth_append intro!: exI [of _ k])
  next
    case (Inr x)
    with run m1 have fx: "f x s1 = (r, s')" by (simp add: and_then_def)
    from obeys_returned [OF m m1] Inr have t1: "trace s1 = trace s @ ok L1" by simp
    show ?thesis
    proof (cases "isl r")
      case True
      with obeys_raised [OF f fx] obtain k where k: "k < length L2"
        "trace s' = trace s1 @ ok (take k L2) @ [(L2 ! k, False)]"
        by auto
      then show ?thesis using True t1
        by (auto simp: nth_append ok_def intro!: exI [of _ "length L1 + k"])
    next
      case False
      with obeys_returned [OF f fx] have "trace s' = trace s1 @ ok L2" by simp
      then show ?thesis using False t1 by (simp add: ok_def)
    qed
  qed
qed

lemma obeys_case_prod: "(\<And>a b. obeys (f a b) L) \<Longrightarrow> obeys (case_prod f x) L"
  by (cases x) simp

lemma obeys_new_mgc: "obeys (new_mgc env d sf) [NewExtractor, NewClassifier, ReadConfig]"
proof -
  have "obeys (new_mgc env d sf) ([NewExtractor] @ [NewClassifier] @ [ReadConfig] @ [])"
    unfolding new_mgc_def by (intro obeys_and_then obeys_call obeys_return)
  then show ?thesis by simp
qed

lemma obeys_data_process: "obeys (data_process env self df) [CopyFrame, Normalize, Factorize]"
proof -
  have "obeys (data_process env self df) ([CopyFrame] @ [Normalize] @ [Factorize])"
    unfolding data_process_def by (intro obeys_and_then obeys_call)
  then show ?thesis by simp
qed

lemma obeys_make_dataset: "obeys (make_dataset env self df out) [GetTime, MakeDataset]"
proof -
  have "obeys (make_dataset env self df out) ([GetTime] @ [MakeDataset])"
    unfolding make_dataset_def by (intro obeys_and_then obeys_call)
  then show ?thesis by simp
qed

lemma obeys_training: "obeys (training env self x y out) [Training, GetTime, SaveModel]"
proof -
  have "obeys (training env self x y out) ([Training] @ [GetTime] @ [SaveModel] @ [])"
    unfolding training_def by (intro obeys_and_then obeys_call obeys_return)
  then show ?thesis by simp
qed

lemma obeys_fresh_path:
  "obeys (and_then (print ''Start feature extraction'') (\<lambda>_.
          and_then (feature_extraction env MGC) (\<lambda>extracted.
          and_then (data_process env MGC extracted) (\<lambda>clean.
            make_dataset env MGC clean out))))
     [ExtractDataset, CopyFrame, Normalize, Factorize, GetTime, MakeDataset]"
proof -
  have "obeys (and_then (print ''Start feature extraction'') (\<lambda>_.
          and_then (feature_extraction env MGC) (\<lambda>extracted.
          and_then (data_process env MGC extracted) (\<lambda>clean.
            make_dataset env MGC clean out))))
     ([] @ [ExtractDataset] @ [CopyFrame, Normalize, Factorize] @ [GetTime, MakeDataset])"
    unfolding feature_extraction_def
    by (intro obeys_and_then obeys_call obeys_print obeys_data_process obeys_make_dataset)
  then show ?thesis by simp
qed

lemma obeys_main_with: "obeys (main_with env fe tr) (expected_steps fe tr)"
proof -
  have src: "\<And>MGC. obeys
       (if fe = True then
          and_then (print ''Start feature extraction'') (\<lambda>_.
          and_then (feature_extraction env MGC) (\<lambda>extracted_feature_dataframe.
          and_then (data_process env MGC extracted_feature_dataframe) (\<lambda>clean_dataframe.
            make_dataset env MGC clean_dataframe ''../../feature'')))
        else read_dataset env MGC ''../../feature/2019-01-23_23:19:56.871484'')
       (if fe then [ExtractDataset, CopyFrame, Normalize, Factorize, GetTime, MakeDataset]
        else [ReadDataset])"
    by (simp add: obeys_fresh_path read_dataset_def obeys_call)
  have mdl: "\<And>MGC x y. obeys
       (if tr = True then training env MGC x y ''../../model''
        else call LoadModel
               (clf_load_model env ''../../model/2019-01-23_23:19:59.720996/mlp.h5''))
       (if tr then [Training, GetTime, SaveModel] else [LoadModel])"
    by (simp add: obeys_training obeys_call)
  have "obeys (main_with env fe tr)
     ([NewExtractor, NewClassifier, ReadConfig]
     @ (if fe then [ExtractDataset, CopyFrame, Normalize, Factorize, GetTime, MakeDataset]
        else [ReadDataset])
     @ (if tr then [Training, GetTime, SaveModel] else [LoadModel])
     @ [Test] @ [] @ [])"
    unfolding main_with_def test_def
    by (intro obeys_and_then obeys_case_prod obeys_new_mgc src mdl obeys_call obeys_print)
  then show ?thesis by (simp add: expected_steps_def)
qed


lemma prints_only_call: "prints_only (call st f) A"
  by (simp add: prints_only_def call_def split: prod.splits)

lemma prints_only_print: "l \<in> A \<Longrightarrow> prints_only (print l) A"
  by (simp add: prints_only_def print_def)

lemma prints_only_return: "prints_only (Pair (Inr x)) A"
  by (simp add: prints_only_def)

lemma prints_only_and_then:
  assumes m: "prints_only m A" and f: "\<And>x. prints_only (f x) A"
  shows "prints_only (and_then m f) A"
  unfolding prints_only_def
proof (intro allI impI)
  fix s r s'
  assume run: "and_then m f s = (r, s')"
  obtain r1 s1 where m1: "m s = (r1, s1)" by (cases "m s")
  from m m1 obtain ls1 where l1: "stdout s1 = stdout s @ ls1" "set ls1 \<subseteq> A"
    unfolding prints_only_def by blast
  show "\<exists>ls. stdout s' = stdout s @ ls \<and> set ls \<subseteq> A"
  proof (cases r1)
    case (Inl e)
    with run m1 have "s' = s1" by (simp add: and_then_def)
    with l1 show ?thesis by blast
  next
    case (Inr x)
    with run m1 have "f x s1 = (r, s')" by (simp add: and_then_def)
    with f [of x] obtain ls2 where "stdout s' = stdout s1 @ ls2" "set ls2 \<subseteq> A"
      unfolding prints_only_def by blast
    with l1 have "stdout s' = stdout s @ (ls1 @ ls2) \<and> set (ls1 @ ls2) \<subseteq> A" by simp
    then show ?thesis by blast
  qed
qed

lemma prints_only_case_prod: "(\<And>a b. prints_only (f a b) A) \<Longrightarrow> prints_only (case_prod f x) A"
  by (cases x) simp

lemma quiet_failure_and_then:
  assumes m: "prints_only m A" and f: "\<And>x. quiet_failure (f x) A"
  shows "quiet_failure (and_then m f) A"
  unfolding quiet_failure_def
proof (intro allI impI)
  fix s r s'
  assume run: "and_then m f s = (r, s')"
  obtain r1 s1 where m1: "m s = (r1, s1)" by (cases "m s")
  from m m1 obtain ls1 where l1: "stdout s1 = stdout s @ ls1" "set ls1 \<subseteq> A"
    unfolding prints_only_def by blast
  show "\<exists>ls. stdout s' = stdout s @ ls \<and> (isl r \<longrightarrow> set ls \<subseteq> A)"
  proof (cases r1)
    case (Inl e)
    with run m1 have "s' = s1" by (simp add: and_then_def)
    with l1 show ?thesis by blast
  next
    case (Inr x)
    with run m1 have "f x s1 = (r, s')" by (simp add: and_then_def)
    with f [of x] obtain ls2 where "stdout s' = stdout s1 @ ls2" "isl r \<longrightarrow> set ls2 \<subseteq> A"
      unfolding quiet_failure_def by blast
    with l1 have "stdout s' = stdout s @ (ls1 @ ls2) \<and> (isl r \<longrightarrow> set (ls1 @ ls2) \<subseteq> A)"
      by simp
    then show ?thesis by blast
  qed
qed

lemma quiet_failure_case_prod:
  "(\<And>a b. quiet_failure (f a b) A) \<Longrightarrow> quiet_failure (case_prod f x) A"
  by (cases x) simp

lemma quiet_failure_prints: "quiet_failure (and_then (print a) (\<lambda>_. print b)) A"
  by (simp add: quiet_failure_def and_then_def print_def)

lemma prints_only_new_mgc: "prints_only (new_mgc env d sf) A"
  unfolding new_mgc_def by (intro prints_only_and_then prints_only_call prints_only_return)

lemma prints_only_training: "prints_only (training env self x y out) A"
  unfolding training_def by (intro prints_only_and_then prints_only_call prints_only_return)

lemma prints_only_feature_source:
  "prints_only
     (if fe = True then
        and_then (print ''Start feature extraction'') (\<lambda>_.
        and_then (feature_extraction env MGC) (\<lambda>extracted_feature_dataframe.
        and_then (data_process env MGC extracted_feature_dataframe) (\<lambda>clean_dataframe.
          make_dataset env MGC clean_dataframe out)))
      else read_dataset env MGC dir)
     {''Start feature extraction''}"
  unfolding feature_extraction_def data_process_def make_dataset_def read_dataset_def
  by (cases fe) (auto intro!: prints_only_and_then prints_only_call prints_only_print)

lemma quiet_failure_main_with:
  "quiet_failure (main_with env fe tr) {''Start feature extraction''}"
  unfolding main_with_def test_def
  by (intro quiet_failure_and_then quiet_failure_case_prod quiet_failure_prints
      prints_only_new_mgc prints_only_feature_source prints_only_call)
    (simp add: prints_only_training prints_only_call)


lemmas pipeline_defs = main_with_def new_mgc_def feature_extraction_def make_dataset_def
  read_dataset_def data_process_def training_def test_def and_then_def call_def print_def start_def

lemma take_Suc_last_only:
  assumes "k < length (P @ [x])" "x \<notin> set P" "x \<in> set (take (Suc k) (P @ [x]))"
  shows "(P @ [x]) ! k = x"
proof (cases "k < length P")
  case True
  then have "take (Suc k) (P @ [x]) = take (Suc k) P" by simp
  with assms(3) have "x \<in> set P" by (auto dest: in_set_takeD)
  with assms(2) show ?thesis by simp
next
  case False
  with assms(1) have "k = length P" by simp
  then show ?thesis by simp
qed

lemma expected_steps_last:
  "\<exists>P. expected_steps fe tr = P @ [Test] \<and> Test \<notin> set P"
  by (cases fe; cases tr) (simp_all add: expected_steps_def)

text \<open>
  C5.  A run uses one feature source.  The calls of a run are an initial part of the
  expected order, and all of it when the run returns; extraction and the reload of a
  snapshot never occur in the same run, and normalisation and label encoding (in this
  order, after the copy) occur on the extraction path only.
\<close>

theorem one_feature_source_per_run:
  assumes run: "main_with env fe tr (start w) = (r, s')"
  shows "(\<exists>k. map fst (trace s') = take k (expected_steps fe tr))
    \<and> (\<not> isl r \<longrightarrow> trace s' = map (\<lambda>st. (st, True)) (expected_steps fe tr))
    \<and> \<not> (ExtractDataset \<in> fst ` set (trace s') \<and> ReadDataset \<in> fst ` set (trace s'))
    \<and> (Normalize \<in> fst ` set (trace s') \<or> Factorize \<in> fst ` set (trace s') \<longrightarrow>
         fe \<and> ReadDataset \<notin> fst ` set (trace s'))"
proof -
  have t0: "trace (start w) = []" by (simp add: start_def)
  have pre: "\<exists>k. map fst (trace s') = take k (expected_steps fe tr)"
  proof (cases "isl r")
    case True
    from obeys_raised [OF obeys_main_with run True] t0 obtain k
      where k: "k < length (expected_steps fe tr)"
        "trace s' = ok (take k (expected_steps fe tr)) @ [(expected_steps fe tr ! k, False)]"
      by auto
    then have "map fst (trace s') = take (Suc k) (expected_steps fe tr)"
      by (simp add: ok_def comp_def take_Suc_conv_app_nth)
    then show ?thesis by blast
  next
    case False
    from obeys_returned [OF obeys_main_with run False] t0
    have "map fst (trace s') = take (length (expected_steps fe tr)) (expected_steps fe tr)"
      by (simp add: ok_def comp_def)
    then show ?thesis by blast
  qed
  then obtain k where k: "map fst (trace s') = take k (expected_steps fe tr)" ..
  have sub: "fst ` set (trace s') \<subseteq> set (expected_steps fe tr)"
    using k set_take_subset [of k "expected_steps fe tr"] by (metis set_map)
  have full: "\<not> isl r \<longrightarrow> trace s' = map (\<lambda>st. (st, True)) (expected_steps fe tr)"
    using obeys_returned [OF obeys_main_with run] t0 by (simp add: ok_def)
  have one: "\<not> (ExtractDataset \<in> fst ` set (trace s') \<and> ReadDataset \<in> fst ` set (trace s'))"
    using sub by (cases fe; cases tr) (auto simp: expected_steps_def)
  have proc: "Normalize \<in> fst ` set (trace s') \<or> Factorize \<in> fst ` set (trace s') \<longrightarrow>
         fe \<and> ReadDataset \<notin> fst ` set (trace s')"
    using sub by (cases fe; cases tr) (auto simp: expected_steps_def)
  from pre full one proc show ?thesis by blast
qed

text \<open>
  C6.  When a call of a run raises, the run ends with that exception: the failed call
  is the last one made, the test is not reached unless it is the call that failed, and
  nothing is printed but possibly the line announcing feature extraction, so no
  accuracy line.
\<close>

theorem failure_aborts_before_accuracy:
  assumes run: "main_with env fe tr (start w) = (r, s')"
    and failed: "(st, False) \<in> set (trace s')"
  shows "isl r
    \<and> last (trace s') = (st, False)
    \<and> (st \<noteq> Test \<longrightarrow> Test \<notin> fst ` set (trace s'))
    \<and> set (stdout s') \<subseteq> {''Start feature extraction''}
    \<and> (\<forall>a. ''Final accuracy is '' @ format_accuracy env a \<notin> set (stdout s'))"
proof -
  have t0: "trace (start w) = []" "stdout (start w) = []" by (simp_all add: start_def)
  have r: "isl r"
  proof (rule ccontr)
    assume "\<not> isl r"
    from obeys_returned [OF obeys_main_with run this] t0 failed show False
      by (auto simp: ok_def)
  qed
  from obeys_raised [OF obeys_main_with run r] t0 obtain k
    where k: "k < length (expected_steps fe tr)"
      "trace s' = ok (take k (expected_steps fe tr)) @ [(expected_steps fe tr ! k, False)]"
    by auto
  with failed have st: "st = expected_steps fe tr ! k" by (auto simp: ok_def)
  with k have lst: "last (trace s') = (st, False)" by simp
  from k have steps: "fst ` set (trace s') = set (take (Suc k) (expected_steps fe tr))"
    by (simp add: ok_def take_Suc_conv_app_nth image_Un image_image)
  obtain P where P: "expected_steps fe tr = P @ [Test]" "Test \<notin> set P"
    using expected_steps_last by blast
  have before: "st \<noteq> Test \<longrightarrow> Test \<notin> fst ` set (trace s')"
  proof (intro impI notI)
    assume "st \<noteq> Test" "Test \<in> fst ` set (trace s')"
    with steps P k(1) take_Suc_last_only [of k P Test] st show False by simp
  qed
  from quiet_failure_main_with [of env fe tr] run r t0
  have out: "set (stdout s') \<subseteq> {''Start feature extraction''}"
    unfolding quiet_failure_def by fastforce
  then have "\<forall>a. ''Final accuracy is '' @ format_accuracy env a \<notin> set (stdout s')"
    by auto
  with r lst before out show ?thesis by blast
qed

theorem one_feature_source_per_run_witness:
  "trace (snd (main stub_collaborators (start \<lparr>heap = [[3, 1]], outside = ()\<rparr>)))
     = map (\<lambda>st. (st, True))
         [NewExtractor, NewClassifier, ReadConfig, ReadDataset, Training, GetTime, SaveModel, Test]
   \<and> stdout (snd (main stub_collaborators (start \<lparr>heap = [[3, 1]], outside = ()\<rparr>)))
     = [''Start prediction'', ''Final accuracy is 1.0'']"
  using one_feature_source_per_run
    [of stub_collaborators False True "\<lparr>heap = [[3, 1]], outside = ()\<rparr>"
        "fst (main_with stub_collaborators False True (start \<lparr>heap = [[3, 1]], outside = ()\<rparr>))"
        "snd (main_with stub_collaborators False True (start \<lparr>heap = [[3, 1]], outside = ()\<rparr>))"]
  by (simp add: main_def pipeline_defs stub_collaborators_def expected_steps_def pandas_copy_def)

theorem failure_aborts_before_accuracy_witness:
  "(let (r, s') =
      main_with (stub_collaborators\<lparr>clf_training := (\<lambda>_ _ w. (Inl (Raised ''fit''), w))\<rparr>)
        True True (start \<lparr>heap = [[3, 1]], outside = ()\<rparr>)
    in isl r \<and> (Training, False) \<in> set (trace s') \<and> Test \<notin> fst ` set (trace s')
       \<and> stdout s' = [''Start feature extraction''])"
  using failure_aborts_before_accuracy
    [of "stub_collaborators\<lparr>clf_training := (\<lambda>_ _ w. (Inl (Raised ''fit''), w))\<rparr>" True True
        "\<lparr>heap = [[3, 1]], outside = ()\<rparr>"
        "fst (main_with (stub_collaborators\<lparr>clf_training := (\<lambda>_ _ w. (Inl (Raised ''fit''), w))\<rparr>)
               True True (start \<lparr>heap = [[3, 1]], outside = ()\<rparr>))"
        "snd (main_with (stub_collaborators\<lparr>clf_training := (\<lambda>_ _ w. (Inl (Raised ''fit''), w))\<rparr>)
               True True (start \<lparr>heap = [[3, 1]], outside = ()\<rparr>))"
        Training]
  by (simp add: pipeline_defs stub_collaborators_def pandas_copy_def)

lemma acts_on_argumentD:
  assumes "acts_on_argument f" "f p l w = (r, w')" "a < length (heap w)" "a \<noteq> p"
  shows "a < length (heap w') \<and> heap w' ! a = heap w ! a \<and> (\<forall>q. r = Inr q \<longrightarrow> q \<noteq> a)"
proof -
  from assms(1,2) have
    len: "length (heap w) \<le> length (heap w')" and
    keep: "\<forall>a<length (heap w). a \<noteq> p \<longrightarrow> heap w' ! a = heap w ! a" and
    res: "\<forall>q. r = Inr q \<longrightarrow> q = p \<or> length (heap w) \<le> q"
    unfolding acts_on_argument_def by blast+
  from len assms(3) have "a < length (heap w')" by simp
  moreover from keep assms(3,4) have "heap w' ! a = heap w ! a" by simp
  moreover from res assms(3,4) have "\<forall>q. r = Inr q \<longrightarrow> q \<noteq> a" by auto
  ultimately show ?thesis by blast
qed

text \<open>
  C7.  \<open>data_process\<close> works on a copy: the frame it is given is in the heap with the
  same content after the call, whether normalisation and label encoding change their
  argument in place or not, and the frame returned is another object.
\<close>

theorem data_process_leaves_input_unchanged:
  assumes cp: "df_copy env = pandas_copy"
    and nz: "acts_on_argument (normalize_dataframe env)"
    and fz: "acts_on_argument (factorize_lebel env)"
    and a: "a < length (heap (world s))"
    and run: "data_process env self a s = (r, s')"
  shows "a < length (heap (world s'))
    \<and> heap (world s') ! a = heap (world s) ! a
    \<and> (\<forall>b. r = Inr b \<longrightarrow> b \<noteq> a)"
proof -
  let ?l = "label_name (cfg self)"
  let ?w1 = "(world s)\<lparr>heap := heap (world s) @ [heap (world s) ! a]\<rparr>"
  let ?c = "length (heap (world s))"
  have a1: "a < length (heap ?w1)" "heap ?w1 ! a = heap (world s) ! a" "a \<noteq> ?c"
    using a by (simp_all add: nth_append)
  obtain r2 w2 where n: "normalize_dataframe env ?c ?l ?w1 = (r2, w2)"
    by (cases "normalize_dataframe env ?c ?l ?w1")
  from acts_on_argumentD [OF nz n a1(1) a1(3)] a1(2)
  have a2: "a < length (heap w2)" "heap w2 ! a = heap (world s) ! a"
    "\<forall>q. r2 = Inr q \<longrightarrow> q \<noteq> a" by simp_all
  show ?thesis
  proof (cases r2)
    case (Inl e)
    with run cp a n have "world s' = w2" "r = Inl e"
      by (auto simp: data_process_def and_then_def call_def pandas_copy_def)
    with a2 show ?thesis by simp
  next
    case (Inr q)
    with a2 have qa: "a \<noteq> q" by auto
    obtain r3 w3 where f: "factorize_lebel env q ?l w2 = (r3, w3)"
      by (cases "factorize_lebel env q ?l w2")
    from acts_on_argumentD [OF fz f a2(1) qa] a2(2)
    have a3: "a < length (heap w3)" "heap w3 ! a = heap (world s) ! a"
      "\<forall>b. r3 = Inr b \<longrightarrow> b \<noteq> a" by simp_all
    from Inr run cp a n f have "world s' = w3" "r = r3"
      by (auto simp: data_process_def and_then_def call_def pandas_copy_def)
    with a3 show ?thesis by simp
  qed
qed

lemma stub_normalize_acts: "acts_on_argument (normalize_dataframe stub_collaborators)"
  by (auto simp: acts_on_argument_def stub_collaborators_def)

lemma stub_factorize_acts: "acts_on_argument (factorize_lebel stub_collaborators)"
  by (auto simp: acts_on_argument_def stub_collaborators_def nth_append)

theorem data_process_leaves_input_unchanged_witness:
  "(let (r, s') =
      data_process stub_collaborators
        \<lparr>dataset_path = ''../../data'',
         cfg = \<lparr>label_name = ''category'', test_rate = 1 / 5, shuffle = True\<rparr>,
         setting_file = ''../../config/master_config.ini''\<rparr>
        0 (start \<lparr>heap = [[3, 1]], outside = ()\<rparr>)
    in r = Inr 2 \<and> heap (world s') = [[3, 1], [2, 0], [4, 0]])"
  using data_process_leaves_input_unchanged
    [OF _ stub_normalize_acts stub_factorize_acts, of 0
        "start \<lparr>heap = [[3, 1]], outside = ()\<rparr>"
        "\<lparr>dataset_path = ''../../data'',
         cfg = \<lparr>label_name = ''category'', test_rate = 1 / 5, shuffle = True\<rparr>,
         setting_file = ''../../config/master_config.ini''\<rparr>"
        "fst (data_process stub_collaborators
          \<lparr>dataset_path = ''../../data'',
           cfg = \<lparr>label_name = ''category'', test_rate = 1 / 5, shuffle = True\<rparr>,
           setting_file = ''../../config/master_config.ini''\<rparr>
          0 (start \<lparr>heap = [[3, 1]], outside = ()\<rparr>))"
        "snd (data_process stub_collaborators
          \<lparr>dataset_path = ''../../data'',
           cfg = \<lparr>label_name = ''category'', test_rate = 1 / 5, shuffle = True\<rparr>,
           setting_file = ''../../config/master_config.ini''\<rparr>
          0 (start \<lparr>heap = [[3, 1]], outside = ()\<rparr>))"]
  by (simp add: pipeline_defs stub_collaborators_def pandas_copy_def)

section \<open>Properties of the data processor\<close>

lemma py_round_adjacent: "\<lfloor>x\<rfloor> \<le> py_round x \<and> py_round x \<le> \<lceil>x\<rceil>"
proof (cases "x = of_int \<lfloor>x\<rfloor>")
  case True
  then have "x - of_int \<lfloor>x\<rfloor> = 0" by simp
  then have "py_round x = \<lfloor>x\<rfloor>" by (simp add: py_round_def Let_def)
  then show ?thesis by (simp add: floor_le_ceiling)
next
  case False
  then have "\<lceil>x\<rceil> = \<lfloor>x\<rfloor> + 1" by (simp add: ceiling_altdef)
  then show ?thesis by (simp add: py_round_def Let_def)
qed

lemma map_of_take_rows:
  "map_of (columns (take_rows ps df)) l
     = map_option (\<lambda>vs. map (\<lambda>i. vs ! i) ps) (map_of (columns df) l)"
proof -
  have "map_of (map (\<lambda>(name, vs). (name, map (\<lambda>i. vs ! i) ps)) cs) l
     = map_option (\<lambda>vs. map (\<lambda>i. vs ! i) ps) (map_of cs l)" for cs :: "(string \<times> 'a list) list"
    by (induction cs) auto
  then show ?thesis by (simp add: take_rows_def)
qed

lemma separate_label_take_rows:
  "map_of (columns df) l = Some vs \<Longrightarrow>
   separate_label (take_rows ps df) l
     = Inr (\<lparr>index = map (\<lambda>i. index df ! i) ps,
             columns = filter (\<lambda>(name, _). name \<noteq> l) (columns (take_rows ps df))\<rparr>,
            \<lparr>s_index = map (\<lambda>i. index df ! i) ps, s_values = map (\<lambda>i. vs ! i) ps\<rparr>)"
  by (simp add: separate_label_def map_of_take_rows) (simp add: take_rows_def)

lemma floor_int_minus: "\<lfloor>of_int m - x\<rfloor> = m - \<lceil>x :: rat\<rceil>"
  using int_add_floor [of m "- x"] by (simp add: ceiling_def)

lemma ceiling_int_minus: "\<lceil>of_int m - x\<rceil> = m - \<lfloor>x :: rat\<rfloor>"
  using floor_int_minus [of "- m" "- x"] by (simp add: ceiling_def)

lemma n_train_bounds:
  fixes rate :: rat and n :: nat
  assumes rate: "0 < rate" "rate < 1"
    and rnd: "\<lfloor>of_nat n * (1 - rate)\<rfloor> \<le> rnd (of_nat n * (1 - rate))"
             "rnd (of_nat n * (1 - rate)) \<le> \<lceil>of_nat n * (1 - rate)\<rceil>"
  shows "nat (rnd (of_nat n * (1 - rate))) \<le> n"
    and "\<bar>int (n - nat (rnd (of_nat n * (1 - rate)))) - py_round (of_nat n * rate)\<bar> \<le> 1"
proof -
  let ?x = "of_nat n * rate :: rat"
  let ?y = "of_nat n * (1 - rate) :: rat"
  let ?k = "rnd ?y"
  have y: "?y = of_int (int n) - ?x" by (simp add: algebra_simps)
  have x0: "0 \<le> ?x" using rate by simp
  have xn: "?x \<le> of_int (int n)" using rate by (simp add: mult_left_le)
  have fl: "\<lfloor>?y\<rfloor> = int n - \<lceil>?x\<rceil>" by (simp only: y floor_int_minus)
  have ce: "\<lceil>?y\<rceil> = int n - \<lfloor>?x\<rfloor>" by (simp only: y ceiling_int_minus)
  have fx0: "0 \<le> \<lfloor>?x\<rfloor>" using x0 by simp
  have cxn: "\<lceil>?x\<rceil> \<le> int n" using xn by (simp add: ceiling_le_iff)
  have k0: "0 \<le> ?k" using rnd(1) fl cxn by linarith
  have kn: "?k \<le> int n" using rnd(2) ce fx0 by linarith
  show "nat ?k \<le> n" using kn by simp
  have t: "int (n - nat ?k) = int n - ?k" using k0 kn by simp
  have fc: "\<lceil>?x\<rceil> \<le> \<lfloor>?x\<rfloor> + 1" by (simp add: ceiling_altdef)
  from py_round_adjacent [of ?x] rnd fl ce fc t
  show "\<bar>int (n - nat ?k) - py_round ?x\<bar> \<le> 1" by linarith
qed


lemma split_table_result:
  assumes rate: "0 < rate" "rate < 1"
    and label: "map_of (columns table) label_column = Some vs"
  shows "split_table rnd perm table label_column rate shuf =
     (let n = length (index table);
          order = (if shuf then perm else [0..<n]);
          n_train = nat (rnd (of_nat n * (1 - rate)));
          train_rows = take_rows (take n_train order) table;
          test_rows = take_rows (drop n_train order) table
      in Inr (\<lparr>index = map (\<lambda>i. index table ! i) (take n_train order),
                columns = filter (\<lambda>(name, _). name \<noteq> label_column) (columns train_rows)\<rparr>,
              \<lparr>index = map (\<lambda>i. index table ! i) (drop n_train order),
                columns = filter (\<lambda>(name, _). name \<noteq> label_column) (columns test_rows)\<rparr>,
              \<lparr>s_index = map (\<lambda>i. index table ! i) (take n_train order),
                s_values = map (\<lambda>i. vs ! i) (take n_train order)\<rparr>,
              \<lparr>s_index = map (\<lambda>i. index table ! i) (drop n_train order),
                s_values = map (\<lambda>i. vs ! i) (drop n_train order)\<rparr>))"
  using rate by (simp add: split_table_def Let_def separate_label_take_rows [OF label])

lemma disjoint_take_drop_images:
  assumes d: "distinct order" and r: "set order \<subseteq> {0..<length ix}" and ix: "distinct ix"
  shows "set (map (\<lambda>i. ix ! i) (take k order)) \<inter> set (map (\<lambda>i. ix ! i) (drop k order)) = {}"
proof (rule ccontr)
  assume "\<not> ?thesis"
  then obtain i j where i: "i \<in> set (take k order)" and j: "j \<in> set (drop k order)"
    and eq: "ix ! i = ix ! j" by auto
  from i j r have "i < length ix" "j < length ix"
    by (auto dest!: in_set_takeD in_set_dropD)
  with ix eq have "i = j" by (simp add: nth_eq_iff_index_eq)
  moreover from d have "set (take k order) \<inter> set (drop k order) = {}"
    by (metis append_take_drop_id distinct_append)
  ultimately show False using i j by auto
qed

text \<open>
  C3.  For a rate in \<open>(0, 1)\<close> and a table that has the label column, the split
  returns, the train and test row counts sum to the row count of the table, the test row
  count is within 1 of \<open>round (rows * rate)\<close>, and no row is in both partitions:
  the two partitions are the rows at two lists of positions that together hold every
  position of the table once.  Where the row labels of the table are distinct, no label
  is in both partitions either.  This holds for every rounding \<open>rnd\<close> to a
  neighbouring integer.
\<close>

theorem split_partitions_rows:
  assumes rate: "0 < rate" "rate < 1"
    and rnd: "\<forall>x. \<lfloor>x\<rfloor> \<le> rnd x \<and> rnd x \<le> \<lceil>x\<rceil>"
    and perm: "shuf \<longrightarrow> distinct perm \<and> set perm = {0..<length (index table)}"
    and label: "label_column \<in> fst ` set (columns table)"
  shows "\<exists>train_data test_data train_label test_label.
      split_table rnd perm table label_column rate shuf
        = Inr (train_data, test_data, train_label, test_label)
      \<and> length (index train_data) + length (index test_data) = length (index table)
      \<and> \<bar>int (length (index test_data)) - py_round (of_nat (length (index table)) * rate)\<bar> \<le> 1
      \<and> (\<exists>ps_train ps_test.
            distinct (ps_train @ ps_test)
            \<and> set (ps_train @ ps_test) = {0..<length (index table)}
            \<and> separate_label (take_rows ps_train table) label_column
                = Inr (train_data, train_label)
            \<and> separate_label (take_rows ps_test table) label_column
                = Inr (test_data, test_label))
      \<and> (distinct (index table) \<longrightarrow> set (index train_data) \<inter> set (index test_data) = {})"
proof -
  let ?n = "length (index table)"
  let ?order = "if shuf then perm else [0..<?n]"
  let ?k = "nat (rnd (of_nat ?n * (1 - rate)))"
  from label obtain vs where vs: "map_of (columns table) label_column = Some vs"
    by (metis map_of_eq_None_iff not_Some_eq)
  have d: "distinct ?order" and r: "set ?order = {0..<?n}"
    using perm by auto
  from d r have len: "length ?order = ?n"
    by (metis card_atLeastLessThan diff_zero distinct_card)
  from rnd have rnd': "\<lfloor>of_nat ?n * (1 - rate)\<rfloor> \<le> rnd (of_nat ?n * (1 - rate))"
    "rnd (of_nat ?n * (1 - rate)) \<le> \<lceil>of_nat ?n * (1 - rate)\<rceil>" by simp_all
  note b = n_train_bounds [of rate ?n rnd, OF rate rnd']
  let ?ptr = "take ?k ?order" and ?pte = "drop ?k ?order"
  let ?trd = "\<lparr>index = map (\<lambda>i. index table ! i) ?ptr,
      columns = filter (\<lambda>(name, _). name \<noteq> label_column) (columns (take_rows ?ptr table))\<rparr>"
  let ?ted = "\<lparr>index = map (\<lambda>i. index table ! i) ?pte,
      columns = filter (\<lambda>(name, _). name \<noteq> label_column) (columns (take_rows ?pte table))\<rparr>"
  let ?trl = "\<lparr>s_index = map (\<lambda>i. index table ! i) ?ptr, s_values = map (\<lambda>i. vs ! i) ?ptr\<rparr>"
  let ?tel = "\<lparr>s_index = map (\<lambda>i. index table ! i) ?pte, s_values = map (\<lambda>i. vs ! i) ?pte\<rparr>"
  have res: "split_table rnd perm table label_column rate shuf = Inr (?trd, ?ted, ?trl, ?tel)"
    by (simp add: split_table_result [OF rate vs] Let_def)
  have cnt: "length (index ?trd) + length (index ?ted) = ?n"
    using len by simp
  have "length (index ?ted) = ?n - ?k" using len by simp
  with b(2) have bound:
    "\<bar>int (length (index ?ted)) - py_round (of_nat ?n * rate)\<bar> \<le> 1" by simp
  have pos: "distinct (?ptr @ ?pte)" "set (?ptr @ ?pte) = {0..<?n}"
    using d r by (simp_all only: append_take_drop_id)
  have s1: "separate_label (take_rows ?ptr table) label_column = Inr (?trd, ?trl)"
    and s2: "separate_label (take_rows ?pte table) label_column = Inr (?ted, ?tel)"
    by (simp_all only: separate_label_take_rows [OF vs])
  have lab: "distinct (index table) \<longrightarrow> set (index ?trd) \<inter> set (index ?ted) = {}"
  proof
    assume ids: "distinct (index table)"
    from disjoint_take_drop_images [OF d _ ids, of ?k] r
    show "set (index ?trd) \<inter> set (index ?ted) = {}" by simp
  qed
  from res cnt bound pos s1 s2 lab show ?thesis by blast
qed

theorem split_partitions_rows_witness:
  "split_table py_round [4, 2, 0, 1, 3] genre_table ''category'' (1 / 5) True
     = Inr (\<lparr>index = [4, 2, 0, 1],
              columns = [(''zcr'', [14, 12, 10, 11]), (''rms'', [24, 22, 20, 21])]\<rparr>,
            \<lparr>index = [3], columns = [(''zcr'', [13]), (''rms'', [23])]\<rparr>,
            \<lparr>s_index = [4, 2, 0, 1], s_values = [2, 0, 0, 1]\<rparr>,
            \<lparr>s_index = [3], s_values = [1]\<rparr>)
   \<and> py_round (of_nat (length (index genre_table)) * (1 / 5)) = 1
   \<and> distinct (index genre_table)"
proof -
  have r: "(0::rat) < 1 / 5" "(1 / 5 :: rat) < 1" by simp_all
  have p: "True \<longrightarrow> distinct [4, 2, 0, 1, 3::nat]
      \<and> set [4, 2, 0, 1, 3] = {0..<length (index genre_table)}"
    by (auto simp: genre_table_def)
  have l: "''category'' \<in> fst ` set (columns genre_table)" by (simp add: genre_table_def)
  have a: "\<forall>x. \<lfloor>x\<rfloor> \<le> py_round x \<and> py_round x \<le> \<lceil>x\<rceil>" by (simp add: py_round_adjacent)
  have e: "split_table py_round [4, 2, 0, 1, 3] genre_table ''category'' (1 / 5) True
     = Inr (\<lparr>index = [4, 2, 0, 1],
              columns = [(''zcr'', [14, 12, 10, 11]), (''rms'', [24, 22, 20, 21])]\<rparr>,
            \<lparr>index = [3], columns = [(''zcr'', [13]), (''rms'', [23])]\<rparr>,
            \<lparr>s_index = [4, 2, 0, 1], s_values = [2, 0, 0, 1]\<rparr>,
            \<lparr>s_index = [3], s_values = [1]\<rparr>)"
    by (simp add: split_table_def separate_label_def take_rows_def genre_table_def py_round_def
        Let_def)
  have q: "py_round (of_nat (length (index genre_table)) * (1 / 5)) = 1"
    by (simp add: genre_table_def py_round_def)
  have d: "distinct (index genre_table)" by (simp add: genre_table_def)
  from split_partitions_rows [OF r a p l] e q d show ?thesis by (simp only: simp_thms)
qed

section \<open>Properties of snapshots\<close>

lemma takeWhile_until:
  "\<forall>c \<in> set xs. P c \<Longrightarrow> \<not> P y \<Longrightarrow> takeWhile P (xs @ y # ys) = xs"
  by (induction xs) auto

lemma dropWhile_until:
  "\<forall>c \<in> set xs. P c \<Longrightarrow> \<not> P y \<Longrightarrow> dropWhile P (xs @ y # ys) = y # ys"
  by (induction xs) auto

lemma os_path_split_join:
  assumes "d \<noteq> []" "last d \<noteq> CHR ''/''" "CHR ''/'' \<notin> set name"
  shows "os_path_split (d @ CHR ''/'' # name) = (d, name)"
proof -
  have r: "rev (d @ CHR ''/'' # name) = rev name @ CHR ''/'' # rev d" by simp
  have n: "\<forall>c \<in> set (rev name). c \<noteq> CHR ''/''" using assms(3) by auto
  have tw: "takeWhile (\<lambda>c. c \<noteq> CHR ''/'') (rev (d @ CHR ''/'' # name)) = rev name"
    unfolding r using n by (intro takeWhile_until) simp_all
  have dw: "dropWhile (\<lambda>c. c \<noteq> CHR ''/'') (rev (d @ CHR ''/'' # name)) = CHR ''/'' # rev d"
    unfolding r using n by (intro dropWhile_until) simp_all
  have hd: "hd (rev d) \<noteq> CHR ''/''" using assms(1,2) by (simp add: hd_rev)
  have strip: "dropWhile (\<lambda>c. c = CHR ''/'') (rev d) = rev d"
    using assms(1) hd by (cases "rev d") auto
  have notall: "\<not> (\<forall>c \<in> set (d @ ''/''). c = CHR ''/'')"
    using assms(1,2) last_in_set by fastforce
  show ?thesis
    unfolding os_path_split_def Let_def tw dw using notall strip by simp
qed

lemma path_join_name:
  assumes "d \<noteq> []" "last d \<noteq> CHR ''/''" "name \<noteq> []" "hd name \<noteq> CHR ''/''"
  shows "path_join d name = d @ CHR ''/'' # name"
  using assms by (simp add: path_join_def)


lemma artifact_paths:
  assumes "d \<noteq> []" "last d \<noteq> CHR ''/''"
  shows "path_join d ''train.csv'' = d @ ''/train.csv''"
    and "path_join d ''test.csv'' = d @ ''/test.csv''"
    and "os_path_split (d @ ''/train.csv'') = (d, ''train.csv'')"
    and "os_path_split (d @ ''/test.csv'') = (d, ''test.csv'')"
  using assms os_path_split_join [of d "''train.csv''"] os_path_split_join [of d "''test.csv''"]
  by (simp_all add: path_join_def)

lemma write_text_in_directory:
  assumes "os_path_split path = (d, name)" "fs d = Some (Directory entries)" "\<not> isdir fs path"
  shows "write_text fs path s =
     (Inr (), fs(d \<mapsto> Directory (if name \<in> set entries then entries else entries @ [name]),
                 path \<mapsto> File s))"
  using assms by (auto simp: write_text_def isdir_def split: option.splits node.splits)

lemma write_text_raises: "write_text fs path s = (Inl e, fs') \<Longrightarrow> fs' = fs"
  by (auto simp: write_text_def split: option.splits node.splits prod.splits)

lemma write_text_returns:
  assumes "write_text fs path s = (Inr u, fs')" "os_path_split path = (d, name)"
  shows "\<exists>entries. fs d = Some (Directory entries)
     \<and> fs' = fs(d \<mapsto> Directory (if name \<in> set entries then entries else entries @ [name]),
               path \<mapsto> File s)"
  using assms by (auto simp: write_text_def split: option.splits node.splits)

lemma persist_snapshot_returns:
  assumes d: "d \<noteq> []" "last d \<noteq> CHR ''/''"
    and run: "persist_snapshot w fs trd trl ted tel L d = (Inr out, fs')"
  shows "out = d
    \<and> fs' d = Some (Directory [''train.csv'', ''test.csv''])
    \<and> fs' (d @ ''/train.csv'') = Some (File (w (columns (recombine trd trl L))))
    \<and> fs' (d @ ''/test.csv'') = Some (File (w (columns (recombine ted tel L))))"
proof -
  note p = artifact_paths [OF d]
  let ?fs0 = "if fs d = None then fs(d \<mapsto> Directory []) else fs"
  let ?t1 = "w (columns (recombine trd trl L))"
  let ?t2 = "w (columns (recombine ted tel L))"
  from run have ex: "fs d = None \<or> fs d = Some (Directory [])"
    by (auto simp: persist_snapshot_def split: option.splits node.splits list.splits)
  then have fs0: "?fs0 d = Some (Directory [])" by auto
  obtain r1 fs1 where w1: "write_text ?fs0 (d @ ''/train.csv'') ?t1 = (r1, fs1)"
    by (cases "write_text ?fs0 (d @ ''/train.csv'') ?t1")
  obtain r2 fs2 where w2: "write_text fs1 (d @ ''/test.csv'') ?t2 = (r2, fs2)"
    by (cases "write_text fs1 (d @ ''/test.csv'') ?t2")
  from run ex w1 w2 have res: "\<not> isl r1" "\<not> isl r2" "out = d" "fs' = fs2"
    by (auto simp: persist_snapshot_def dataframe2csv_def p Let_def
        split: option.splits node.splits list.splits sum.splits)
  from res(1) w1 obtain u1 where "write_text ?fs0 (d @ ''/train.csv'') ?t1 = (Inr u1, fs1)"
    by (cases r1) auto
  from write_text_returns [OF this p(3)] fs0
  have fs1: "fs1 = ?fs0(d \<mapsto> Directory [''train.csv''], d @ ''/train.csv'' \<mapsto> File ?t1)"
    by auto
  then have fs1d: "fs1 d = Some (Directory [''train.csv''])" by simp
  from res(2) w2 obtain u2 where "write_text fs1 (d @ ''/test.csv'') ?t2 = (Inr u2, fs2)"
    by (cases r2) auto
  from write_text_returns [OF this p(4)] fs1d
  have fs2: "fs2 = fs1(d \<mapsto> Directory [''train.csv'', ''test.csv''],
      d @ ''/test.csv'' \<mapsto> File ?t2)"
    by auto
  show ?thesis using res(3,4) fs2 fs1 by simp
qed


lemma path_join_differs: "name \<noteq> [] \<Longrightarrow> hd name \<noteq> CHR ''/'' \<Longrightarrow> path_join d name \<noteq> d"
  by (simp add: path_join_def)

lemma write_text_keeps_directory:
  "isdir fs d \<Longrightarrow> path \<noteq> d \<Longrightarrow> isdir (snd (write_text fs path s)) d"
  by (auto simp: write_text_def isdir_def split: option.splits node.splits prod.splits)

lemma persist_snapshot_creates:
  assumes "fs d = None"
  shows "isdir (snd (persist_snapshot w fs trd trl ted tel L d)) d"
proof -
  let ?fs0 = "fs(d \<mapsto> Directory [])"
  let ?p1 = "path_join d ''train.csv''" and ?p2 = "path_join d ''test.csv''"
  let ?w1 = "write_text ?fs0 ?p1 (w (columns (recombine trd trl L)))"
  let ?w2 = "write_text (snd ?w1) ?p2 (w (columns (recombine ted tel L)))"
  have n: "?p1 \<noteq> d" "?p2 \<noteq> d" by (simp_all add: path_join_differs)
  have "isdir ?fs0 d" by (simp add: isdir_def)
  then have 1: "isdir (snd ?w1) d" using n(1) by (rule write_text_keeps_directory)
  then have 2: "isdir (snd ?w2) d" using n(2) by (rule write_text_keeps_directory)
  have "snd (persist_snapshot w fs trd trl ted tel L d) = snd ?w1
      \<or> snd (persist_snapshot w fs trd trl ted tel L d) = snd ?w2"
    using assms
    by (auto simp: persist_snapshot_def dataframe2csv_def Let_def split: prod.splits sum.splits)
  with 1 2 show ?thesis by auto
qed

text \<open>
  C4.  Persisting a snapshot creates the directory when it is absent; on a directory that
  is not empty it fails with \<open>IOError\<close> and leaves the file system as it was; and after
  one call has returned, a second call at the same directory fails so, whatever it was
  to write, with the artifacts of the first call untouched.
\<close>

theorem persist_snapshot_never_overwrites:
  "(fs directory = None \<longrightarrow>
      isdir (snd (persist_snapshot w fs trd trl ted tel L directory)) directory)
   \<and> ((\<exists>e es. fs directory = Some (Directory (e # es))) \<longrightarrow>
      persist_snapshot w fs trd trl ted tel L directory = (Inl IOError, fs))
   \<and> (directory \<noteq> [] \<and> last directory \<noteq> CHR ''/''
       \<and> persist_snapshot w fs trd trl ted tel L directory = (Inr out, fs') \<longrightarrow>
      persist_snapshot w' fs' trd' trl' ted' tel' L' directory = (Inl IOError, fs'))"
proof (intro conjI impI)
  assume "fs directory = None"
  then show "isdir (snd (persist_snapshot w fs trd trl ted tel L directory)) directory"
    by (rule persist_snapshot_creates)
next
  assume "\<exists>e es. fs directory = Some (Directory (e # es))"
  then show "persist_snapshot w fs trd trl ted tel L directory = (Inl IOError, fs)"
    by (auto simp: persist_snapshot_def)
next
  assume a: "directory \<noteq> [] \<and> last directory \<noteq> CHR ''/''
       \<and> persist_snapshot w fs trd trl ted tel L directory = (Inr out, fs')"
  then have "fs' directory = Some (Directory [''train.csv'', ''test.csv''])"
    using persist_snapshot_returns [of directory w fs trd trl ted tel L out fs'] by simp
  then show "persist_snapshot w' fs' trd' trl' ted' tel' L' directory = (Inl IOError, fs')"
    by (simp add: persist_snapshot_def)
qed















lemma digit_code: "d < 10 \<Longrightarrow> (of_char (char_of (48 + d :: nat)) :: nat) = 48 + d"
  by simp

















lemma snapshot_dir_shape: "snapshot_dir \<noteq> []" "last snapshot_dir \<noteq> CHR ''/''"
  by (simp_all add: snapshot_dir_def path_join_def)

lemma persist_fresh:
  assumes d: "d \<noteq> []" "last d \<noteq> CHR ''/''" and new: "fs d = None"
    and free: "\<not> isdir fs (d @ ''/train.csv'')" "\<not> isdir fs (d @ ''/test.csv'')"
  shows "persist_snapshot w fs trd trl ted tel L d =
     (Inr d, fs(d \<mapsto> Directory [''train.csv'', ''test.csv''],
                d @ ''/train.csv'' \<mapsto> File (w (columns (recombine trd trl L))),
                d @ ''/test.csv'' \<mapsto> File (w (columns (recombine ted tel L)))))"
proof -
  note p = artifact_paths [OF d]
  let ?fs0 = "fs(d \<mapsto> Directory [])"
  let ?t1 = "w (columns (recombine trd trl L))"
  let ?t2 = "w (columns (recombine ted tel L))"
  let ?fs1 = "fs(d \<mapsto> Directory [''train.csv''], d @ ''/train.csv'' \<mapsto> File ?t1)"
  let ?fs2 = "fs(d \<mapsto> Directory [''train.csv'', ''test.csv''],
                d @ ''/train.csv'' \<mapsto> File ?t1, d @ ''/test.csv'' \<mapsto> File ?t2)"
  have w1: "write_text ?fs0 (d @ ''/train.csv'') ?t1 = (Inr (), ?fs1)"
    using write_text_in_directory [OF p(3), of ?fs0 "[]" ?t1] free(1)
    by (simp add: isdir_def)
  have "write_text ?fs1 (d @ ''/test.csv'') ?t2
      = (Inr (), ?fs1(d \<mapsto> Directory [''train.csv'', ''test.csv''],
                       d @ ''/test.csv'' \<mapsto> File ?t2))"
    using write_text_in_directory [OF p(4), of ?fs1 "[''train.csv'']" ?t2] free(2)
    by (simp add: isdir_def)
  moreover have "?fs1(d \<mapsto> Directory [''train.csv'', ''test.csv''],
                       d @ ''/test.csv'' \<mapsto> File ?t2) = ?fs2"
    by (auto simp: fun_eq_iff)
  ultimately have w2: "write_text ?fs1 (d @ ''/test.csv'') ?t2 = (Inr (), ?fs2)"
    by (simp only:)
  show ?thesis
    using new by (simp add: persist_snapshot_def dataframe2csv_def p w1 w2)
qed







theorem persist_snapshot_never_overwrites_witness:
  "(case persist_snapshot int_to_csv Map.empty
           \<lparr>index = [4, 2], columns = [(''zcr'', [14, 12])]\<rparr> \<lparr>s_index = [4, 2], s_values = [2, 0]\<rparr>
           \<lparr>index = [3], columns = [(''zcr'', [13])]\<rparr> \<lparr>s_index = [3], s_values = [1]\<rparr>
           ''category'' snapshot_dir of
      (r, fs') \<Rightarrow>
        r = Inr snapshot_dir
        \<and> listdir fs' snapshot_dir = Inr [''train.csv'', ''test.csv'']
        \<and> persist_snapshot int_to_csv fs'
              \<lparr>index = [0], columns = [(''zcr'', [99])]\<rparr> \<lparr>s_index = [0], s_values = [7]\<rparr>
              \<lparr>index = [1], columns = [(''zcr'', [98])]\<rparr> \<lparr>s_index = [1], s_values = [8]\<rparr>
              ''category'' snapshot_dir
            = (Inl IOError, fs'))"
proof -
  let ?trd = "\<lparr>index = [4, 2], columns = [(''zcr'', [14, 12 :: int])]\<rparr>"
  let ?trl = "\<lparr>s_index = [4, 2], s_values = [2, 0 :: int]\<rparr>"
  let ?ted = "\<lparr>index = [3], columns = [(''zcr'', [13 :: int])]\<rparr>"
  let ?tel = "\<lparr>s_index = [3], s_values = [1 :: int]\<rparr>"
  let ?fs' = "Map.empty(snapshot_dir \<mapsto> Directory [''train.csv'', ''test.csv''],
      snapshot_dir @ ''/train.csv'' \<mapsto> File (int_to_csv (columns (recombine ?trd ?trl ''category''))),
      snapshot_dir @ ''/test.csv'' \<mapsto> File (int_to_csv (columns (recombine ?ted ?tel ''category''))))"
  have p: "persist_snapshot int_to_csv Map.empty ?trd ?trl ?ted ?tel ''category'' snapshot_dir
      = (Inr snapshot_dir, ?fs')"
    using persist_fresh [OF snapshot_dir_shape, where fs = Map.empty and w = int_to_csv
        and trd = "?trd" and trl = "?trl" and ted = "?ted" and tel = "?tel" and L = "''category''"]
    by (simp add: isdir_def)
  have l: "listdir ?fs' snapshot_dir = Inr [''train.csv'', ''test.csv'']"
    by (simp add: listdir_def)
  from persist_snapshot_never_overwrites
    [of Map.empty snapshot_dir int_to_csv "?trd" "?trl" "?ted" "?tel" "''category''" snapshot_dir "?fs'"
        int_to_csv "\<lparr>index = [0], columns = [(''zcr'', [99])]\<rparr>"
        "\<lparr>s_index = [0], s_values = [7]\<rparr>" "\<lparr>index = [1], columns = [(''zcr'', [98])]\<rparr>"
        "\<lparr>s_index = [1], s_values = [8]\<rparr>" "''category''"]
    p snapshot_dir_shape
  have "persist_snapshot int_to_csv ?fs'
              \<lparr>index = [0], columns = [(''zcr'', [99])]\<rparr> \<lparr>s_index = [0], s_values = [7]\<rparr>
              \<lparr>index = [1], columns = [(''zcr'', [98])]\<rparr> \<lparr>s_index = [1], s_values = [8]\<rparr>
              ''category'' snapshot_dir
            = (Inl IOError, ?fs')"
    by simp
  with p l show ?thesis by (simp only: prod.case)
qed

section \<open>Properties of snapshot naming\<close>

lemma str_less_irrefl [simp]: "\<not> str_less a a"
  by (induction a) auto

lemma str_less_trans: "str_less a b \<Longrightarrow> str_less b c \<Longrightarrow> str_less a c"
proof (induction a b arbitrary: c rule: str_less.induct)
  case (2 y ys)
  then show ?case by (cases c) auto
next
  case (4 x xs y ys)
  then show ?case by (cases c) (auto split: if_splits)
qed simp_all

lemma str_less_append_same_length:
  "length a = length b \<Longrightarrow>
   str_less (a @ x) (b @ y) \<longleftrightarrow> str_less a b \<or> (a = b \<and> str_less x y)"
  by (induction a b rule: list_induct2) auto

lemma str_less_same_length_only: "length a = length b \<Longrightarrow> str_less a b \<Longrightarrow> str_less (a @ x) (b @ y)"
  by (simp add: str_less_append_same_length)

lemma length_zero_padded [simp]: "length (zero_padded w n) = w"
  by (induction w n rule: zero_padded.induct) auto

lemma digit_less: "a < 10 \<Longrightarrow> b < 10 \<Longrightarrow>
   (of_char (char_of (48 + a :: nat)) :: nat) < of_char (char_of (48 + b :: nat)) \<longleftrightarrow> a < b"
  by simp

lemma digit_eq: "a < 10 \<Longrightarrow> b < 10 \<Longrightarrow> char_of (48 + a :: nat) = char_of (48 + b :: nat) \<longleftrightarrow> a = b"
proof
  assume "a < 10" "b < 10" and e: "char_of (48 + a) = char_of (48 + b)"
  then have "(of_char (char_of (48 + a)) :: nat) = of_char (char_of (48 + b))" by simp
  with \<open>a < 10\<close> \<open>b < 10\<close> show "a = b" by simp
qed simp


lemma less_by_digits:
  fixes m n :: nat
  shows "m < n \<longleftrightarrow> m div 10 < n div 10 \<or> (m div 10 = n div 10 \<and> m mod 10 < n mod 10)"
proof -
  have m: "m = 10 * (m div 10) + m mod 10" and n: "n = 10 * (n div 10) + n mod 10" by simp_all
  have dm: "m mod 10 < 10" and dn: "n mod 10 < 10" by simp_all
  show ?thesis
  proof (cases "m div 10 < n div 10")
    case True
    then have "10 * (m div 10) + 10 \<le> 10 * (n div 10)" by simp
    with m n dm have "m < n" by linarith
    with True show ?thesis by simp
  next
    case False
    show ?thesis
    proof (cases "m div 10 = n div 10")
      case True
      with m n have "m < n \<longleftrightarrow> m mod 10 < n mod 10" by (metis nat_add_left_cancel_less)
      with True show ?thesis by simp
    next
      case ne: False
      with False have "n div 10 < m div 10" by simp
      then have "10 * (n div 10) + 10 \<le> 10 * (m div 10)" by simp
      with m n dn have "n < m" by linarith
      with False ne show ?thesis by simp
    qed
  qed
qed

lemma eq_by_digits:
  fixes m n :: nat
  shows "m = n \<longleftrightarrow> m div 10 = n div 10 \<and> m mod 10 = n mod 10"
  by (metis div_mult_mod_eq)

lemma zero_padded_order:
  "m < 10 ^ w \<Longrightarrow> n < 10 ^ w \<Longrightarrow>
   (str_less (zero_padded w m) (zero_padded w n) \<longleftrightarrow> m < n)
   \<and> (zero_padded w m = zero_padded w n \<longleftrightarrow> m = n)"
proof (induction w arbitrary: m n)
  case 0
  then show ?case by simp
next
  case (Suc w)
  from Suc.prems have b: "m div 10 < 10 ^ w" "n div 10 < 10 ^ w"
    by (simp_all add: less_mult_imp_div_less mult.commute)
  have d: "m mod 10 < 10" "n mod 10 < 10" by simp_all
  note ih = Suc.IH [OF b]
  have "str_less (zero_padded (Suc w) m) (zero_padded (Suc w) n) \<longleftrightarrow>
      m div 10 < n div 10 \<or> (m div 10 = n div 10 \<and> m mod 10 < n mod 10)"
    using ih digit_less [OF d] by (simp add: str_less_append_same_length)
  moreover have "zero_padded (Suc w) m = zero_padded (Suc w) n \<longleftrightarrow>
      m div 10 = n div 10 \<and> m mod 10 = n mod 10"
    using ih digit_eq [OF d] by simp
  ultimately show ?case
    using less_by_digits [of m n] eq_by_digits [of m n] by simp
qed

lemma zero_padded_less:
  "m < 10 ^ w \<Longrightarrow> n < 10 ^ w \<Longrightarrow> str_less (zero_padded w m) (zero_padded w n) \<longleftrightarrow> m < n"
  by (simp add: zero_padded_order)

lemma zero_padded_eq:
  "m < 10 ^ w \<Longrightarrow> n < 10 ^ w \<Longrightarrow> zero_padded w m = zero_padded w n \<longleftrightarrow> m = n"
  by (simp add: zero_padded_order)

lemma length_format_time [simp]: "length (format_time t) = 26"
  by (simp add: format_time_def)

lemma format_time_order:
  assumes "valid_datetime a" "valid_datetime b"
  shows "str_less (format_time a) (format_time b) \<longleftrightarrow> earlier a b"
    and "format_time a = format_time b \<longleftrightarrow> a = b"
proof -
  from assms have
    b: "year a < 10 ^ 4" "year b < 10 ^ 4" "month a < 10 ^ 2" "month b < 10 ^ 2"
      "day a < 10 ^ 2" "day b < 10 ^ 2" "hour a < 10 ^ 2" "hour b < 10 ^ 2"
      "minute a < 10 ^ 2" "minute b < 10 ^ 2" "second a < 10 ^ 2" "second b < 10 ^ 2"
      "microsecond a < 10 ^ 6" "microsecond b < 10 ^ 6"
    by (simp_all add: valid_datetime_def)
  show "str_less (format_time a) (format_time b) \<longleftrightarrow> earlier a b"
    unfolding format_time_def earlier_def
    by (simp only: str_less_append_same_length length_zero_padded str_less.simps
        zero_padded_less [OF b(1,2)] zero_padded_less [OF b(3,4)] zero_padded_less [OF b(5,6)]
        zero_padded_less [OF b(7,8)] zero_padded_less [OF b(9,10)] zero_padded_less [OF b(11,12)]
        zero_padded_less [OF b(13,14)]
        zero_padded_eq [OF b(1,2)] zero_padded_eq [OF b(3,4)] zero_padded_eq [OF b(5,6)]
        zero_padded_eq [OF b(7,8)] zero_padded_eq [OF b(9,10)] zero_padded_eq [OF b(11,12)]
        zero_padded_eq [OF b(13,14)] simp_thms nat_less_le refl)
  show "format_time a = format_time b \<longleftrightarrow> a = b"
  proof
    assume "format_time a = format_time b"
    then have "year a = year b \<and> month a = month b \<and> day a = day b \<and> hour a = hour b
        \<and> minute a = minute b \<and> second a = second b \<and> microsecond a = microsecond b"
      unfolding format_time_def
      by (simp only: append_eq_append_conv length_zero_padded list.inject simp_thms
          zero_padded_eq [OF b(1,2)] zero_padded_eq [OF b(3,4)]
          zero_padded_eq [OF b(5,6)] zero_padded_eq [OF b(7,8)] zero_padded_eq [OF b(9,10)]
          zero_padded_eq [OF b(11,12)] zero_padded_eq [OF b(13,14)])
    then show "a = b" by (simp add: datetime.equality)
  qed simp
qed


lemma transp_str_less: "transp str_less"
  by (rule transpI) (rule str_less_trans)

lemma earlier_total: "\<not> earlier a b \<Longrightarrow> \<not> earlier b a \<Longrightarrow> a = b"
proof -
  assume n: "\<not> earlier a b" "\<not> earlier b a"
  from n have 1: "year a = year b" unfolding earlier_def by (meson linorder_neqE_nat)
  with n have 2: "month a = month b" unfolding earlier_def by (meson linorder_neqE_nat)
  with n 1 have 3: "day a = day b" unfolding earlier_def by (meson linorder_neqE_nat)
  with n 1 2 have 4: "hour a = hour b" unfolding earlier_def by (meson linorder_neqE_nat)
  with n 1 2 3 have 5: "minute a = minute b" unfolding earlier_def by (meson linorder_neqE_nat)
  with n 1 2 3 4 have 6: "second a = second b" unfolding earlier_def by (meson linorder_neqE_nat)
  with n 1 2 3 4 5 have 7: "microsecond a = microsecond b"
    unfolding earlier_def by (meson linorder_neqE_nat)
  from 1 2 3 4 5 6 7 show "a = b" by (simp add: datetime.equality)
qed

lemma issued_prefix: "take 26 (issued t c) = format_time t"
  by (simp add: issued_def)

lemma issued_next_same_tick: "c + 1 < 10 ^ 6 \<Longrightarrow> str_less (issued t c) (issued t (c + 1))"
proof (cases "c = 0")
  case True
  then show ?thesis
    using str_less_append_same_length [of "format_time t" "format_time t" "[]"]
    by (simp add: issued_def)
next
  case False
  assume "c + 1 < 10 ^ 6"
  then have "str_less (zero_padded 6 c) (zero_padded 6 (c + 1))"
    by (subst zero_padded_less) simp_all
  with False show ?thesis
    by (simp add: issued_def str_less_append_same_length del: zero_padded.simps)
qed

lemma issued_next_later_tick:
  assumes "valid_datetime t" "valid_datetime now" "earlier t now"
  shows "str_less (issued t c) (issued now 0)"
proof -
  from assms have l: "str_less (format_time t) (format_time now)"
    by (simp add: format_time_order)
  then have "str_less (format_time t @ x) (format_time now @ [])" for x
    by (intro str_less_same_length_only) simp_all
  with l show ?thesis by (simp add: issued_def)
qed

lemma new_snapshot_id_issued:
  "new_snapshot_id now \<lparr>last_tick = Some t, collisions = c\<rparr> =
     (if t = now then (issued t (c + 1), \<lparr>last_tick = Some t, collisions = c + 1\<rparr>)
      else (issued now 0, \<lparr>last_tick = Some now, collisions = 0\<rparr>))"
  by (simp add: new_snapshot_id_def issued_def)

lemma run_ids_sorted_after:
  assumes "valid_datetime t" "\<forall>now \<in> set nows. valid_datetime now \<and> \<not> earlier now t"
    and "sorted_wrt (\<lambda>a b. \<not> earlier b a) nows" "c + length nows < 10 ^ 6"
  shows "sorted_wrt str_less (issued t c # run_ids nows \<lparr>last_tick = Some t, collisions = c\<rparr>)"
  using assms
proof (induction nows arbitrary: t c)
  case Nil
  then show ?case by simp
next
  case (Cons now rest)
  show ?case
  proof (cases "t = now")
    case True
    have ih: "sorted_wrt str_less
        (issued t (c + 1) # run_ids rest \<lparr>last_tick = Some t, collisions = c + 1\<rparr>)"
      using Cons.prems by (intro Cons.IH) auto
    have "str_less (issued t c) (issued t (c + 1))"
      using Cons.prems(4) by (intro issued_next_same_tick) simp
    with ih True show ?thesis
      by (simp only: run_ids.simps new_snapshot_id_issued if_True prod.case
          sorted_wrt2 [OF transp_str_less] simp_thms)
  next
    case False
    with Cons.prems(2) have e: "earlier t now" using earlier_total [of t now] by auto
    have ih: "sorted_wrt str_less
        (issued now 0 # run_ids rest \<lparr>last_tick = Some now, collisions = 0\<rparr>)"
      using Cons.prems by (intro Cons.IH) auto
    have "str_less (issued t c) (issued now 0)"
      using Cons.prems(1,2) e by (intro issued_next_later_tick) auto
    with ih False show ?thesis
      by (simp only: run_ids.simps new_snapshot_id_issued if_False prod.case
          sorted_wrt2 [OF transp_str_less] simp_thms)
  qed
qed

lemma run_ids_prefix:
  "length (run_ids nows st) = length nows
   \<and> (\<forall>i<length nows. take 26 (run_ids nows st ! i) = format_time (nows ! i))"
proof (induction nows arbitrary: st)
  case Nil
  then show ?case by simp
next
  case (Cons now rest)
  obtain name st' where n: "new_snapshot_id now st = (name, st')"
    by (cases "new_snapshot_id now st")
  then have "take 26 name = format_time now"
    by (auto simp: new_snapshot_id_def split: if_splits)
  with Cons.IH [of st'] n show ?case
    by (auto simp: nth_Cons split: nat.splits)
qed

lemma sorted_wrt_str_less_distinct: "sorted_wrt str_less xs \<Longrightarrow> distinct xs"
  by (induction xs) auto

text \<open>
  C2.  The identifiers of a run, requested at clock readings that do not go backwards,
  are strictly increasing in lexical order, so their lexical order is the chronological
  one and they are pairwise distinct, also within one clock tick; each starts with the
  26 characters of its clock reading at microsecond resolution.  The counter has six
  digits, so the run requests fewer than a million identifiers.
\<close>

theorem snapshot_ids_sorted_and_distinct:
  assumes "\<forall>now \<in> set nows. valid_datetime now"
    and "sorted_wrt (\<lambda>a b. \<not> earlier b a) nows"
    and "length nows < 10 ^ 6"
  shows "sorted_wrt str_less (run_ids nows fresh_run)
    \<and> distinct (run_ids nows fresh_run)
    \<and> length (run_ids nows fresh_run) = length nows
    \<and> (\<forall>i<length nows. take 26 (run_ids nows fresh_run ! i) = format_time (nows ! i))"
proof -
  have s: "sorted_wrt str_less (run_ids nows fresh_run)"
  proof (cases nows)
    case Nil
    then show ?thesis by simp
  next
    case (Cons now rest)
    have "sorted_wrt str_less
        (issued now 0 # run_ids rest \<lparr>last_tick = Some now, collisions = 0\<rparr>)"
      using assms Cons by (intro run_ids_sorted_after) auto
    then show ?thesis
      by (simp add: Cons fresh_run_def new_snapshot_id_def issued_def)
  qed
  with sorted_wrt_str_less_distinct [OF s] run_ids_prefix [of nows fresh_run]
  show ?thesis by simp
qed


lemma ticks_valid: "\<forall>now \<in> set [feature_tick, feature_tick, model_tick]. valid_datetime now"
  by (simp add: valid_datetime_def feature_tick_def model_tick_def)

lemma ticks_sorted: "sorted_wrt (\<lambda>a b. \<not> earlier b a) [feature_tick, feature_tick, model_tick]"
  by (simp add: earlier_def feature_tick_def model_tick_def)

lemma zero_padded_numeral:
  "zero_padded (numeral k) n = zero_padded (pred_numeral k) (n div 10) @ [char_of (48 + n mod 10)]"
  by (simp only: numeral_eq_Suc [of k] zero_padded.simps)

lemma digit_chars:
  "char_of (48::nat) = CHR ''0''" "char_of (49::nat) = CHR ''1''" "char_of (50::nat) = CHR ''2''"
  "char_of (51::nat) = CHR ''3''" "char_of (52::nat) = CHR ''4''" "char_of (53::nat) = CHR ''5''"
  "char_of (54::nat) = CHR ''6''" "char_of (55::nat) = CHR ''7''" "char_of (56::nat) = CHR ''8''"
  "char_of (57::nat) = CHR ''9''"
  by (simp_all add: char_of_def bit_Suc_0_iff)

lemma ticks_ids:
  "run_ids [feature_tick, feature_tick, model_tick] fresh_run
     = [''2019-01-23_23:19:56.871484'', ''2019-01-23_23:19:56.871484_000001'',
        ''2019-01-23_23:19:59.720996'']"
  by (simp add: new_snapshot_id_def fresh_run_def format_time_def feature_tick_def
      model_tick_def zero_padded_numeral digit_chars)

theorem snapshot_ids_sorted_and_distinct_witness:
  "run_ids [feature_tick, feature_tick, model_tick] fresh_run
     = [''2019-01-23_23:19:56.871484'', ''2019-01-23_23:19:56.871484_000001'',
        ''2019-01-23_23:19:59.720996'']
   \<and> sorted_wrt str_less (run_ids [feature_tick, feature_tick, model_tick] fresh_run)
   \<and> distinct (run_ids [feature_tick, feature_tick, model_tick] fresh_run)"
proof -
  have "length [feature_tick, feature_tick, model_tick] < 10 ^ 6" by simp
  from snapshot_ids_sorted_and_distinct [OF ticks_valid ticks_sorted this] ticks_ids
  show ?thesis by (simp only: simp_thms)
qed


end
